theory Spec2Isabelle
  imports Complex_Main "HOL-Library.Word" "HOL-Library.AList"
begin

section \<open>The multi-element text canvas editor (PostComposer)\<close>

text \<open>
  A shallow embedding of the \<^verbatim>\<open>PostComposer\<close> component: its text elements, the
  local edit buffer, the tap, pan and pinch handlers, the edit-mode transitions and the
  validation and serialisation done by \<^verbatim>\<open>handlePost\<close>.

  Conventions of the embedding.
  \<^item> A JavaScript string is the list of its UTF-16 code units, so \<^verbatim>\<open>.length\<close> is
    \<open>length\<close>. \<open>str\<close> writes an ASCII literal.
  \<^item> The scale of an element and the scale factor of a pinch frame are values of
    \<open>jsnumber\<close>: a finite number, one of the two infinities, or NaN, with the product,
    \<^verbatim>\<open>Math.max\<close> and \<^verbatim>\<open>Math.min\<close> of JavaScript on them. The other numbers
    (positions, translations, font sizes, the window size) are finite and kept as \<open>real\<close>.
    Finite arithmetic is read exactly, without the rounding of IEEE doubles.
  \<^item> A handler is a function of the component state. The constants a handler reads
    (\<^verbatim>\<open>textElements\<close>, \<^verbatim>\<open>localTextContent\<close>, ...) are those of the
    render it was created in; the functional updates it queues
    (\<^verbatim>\<open>setTextElements(prev => ...)\<close>) are applied in order to the pending state.
    Where a handler calls another one after queueing an update, the callee therefore
    takes two states: \<open>r\<close>, the render it reads from, and \<open>p\<close>, the pending state it
    updates. An event is handled on the state left by the previous event.
  \<^item> The fields \<^verbatim>\<open>id\<close>, \<^verbatim>\<open>x\<close> and \<^verbatim>\<open>y\<close> of a text element are
    named \<open>el_id\<close>, \<open>el_x\<close> and \<open>el_y\<close>.
\<close>

subsection \<open>Strings and numbers\<close>

type_synonym jsstring = "16 word list"

definition str :: "string \<Rightarrow> jsstring" where
  "str s = map of_char s"

text \<open>The code units that \<^verbatim>\<open>String.prototype.trim\<close> strips: WhiteSpace and
  LineTerminator of ECMAScript.\<close>

definition isWhiteSpace :: "16 word \<Rightarrow> bool" where
  "isWhiteSpace c \<longleftrightarrow>
     c = 0x0009 \<or> c = 0x000A \<or> c = 0x000B \<or> c = 0x000C \<or> c = 0x000D \<or> c = 0x0020 \<or>
     c = 0x00A0 \<or> c = 0x1680 \<or> (0x2000 \<le> c \<and> c \<le> 0x200A) \<or> c = 0x2028 \<or>
     c = 0x2029 \<or> c = 0x202F \<or> c = 0x205F \<or> c = 0x3000 \<or> c = 0xFEFF"

definition trim :: "jsstring \<Rightarrow> jsstring" where
  "trim s = rev (dropWhile isWhiteSpace (rev (dropWhile isWhiteSpace s)))"

text \<open>\<^verbatim>\<open>Array.prototype.join\<close> on an array of strings.\<close>

fun join :: "jsstring \<Rightarrow> jsstring list \<Rightarrow> jsstring" where
  "join sep [] = []"
| "join sep [a] = a"
| "join sep (a # b # bs) = a @ sep @ join sep (b # bs)"

text \<open>\<^verbatim>\<open>Math.round\<close>: the nearest integer, a tie going up.\<close>

definition Math_round :: "real \<Rightarrow> int" where
  "Math_round v = \<lfloor>v + 1 / 2\<rfloor>"

text \<open>Numbers that may be infinite or NaN. The product of a zero and an infinity is
  NaN; \<^verbatim>\<open>Math.max\<close> and \<^verbatim>\<open>Math.min\<close> return NaN as soon as an argument is NaN;
  \<^verbatim>\<open>Math.round\<close> returns an infinity or NaN unchanged.\<close>

datatype jsnumber = Num real | PosInfinity | NegInfinity | NaN

fun times_js :: "jsnumber \<Rightarrow> jsnumber \<Rightarrow> jsnumber" where
  "times_js NaN b = NaN"
| "times_js a NaN = NaN"
| "times_js (Num x) (Num y) = Num (x * y)"
| "times_js (Num x) PosInfinity =
     (if 0 < x then PosInfinity else if x < 0 then NegInfinity else NaN)"
| "times_js (Num x) NegInfinity =
     (if 0 < x then NegInfinity else if x < 0 then PosInfinity else NaN)"
| "times_js PosInfinity (Num y) =
     (if 0 < y then PosInfinity else if y < 0 then NegInfinity else NaN)"
| "times_js NegInfinity (Num y) =
     (if 0 < y then NegInfinity else if y < 0 then PosInfinity else NaN)"
| "times_js PosInfinity PosInfinity = PosInfinity"
| "times_js PosInfinity NegInfinity = NegInfinity"
| "times_js NegInfinity PosInfinity = NegInfinity"
| "times_js NegInfinity NegInfinity = PosInfinity"

fun Math_max :: "jsnumber \<Rightarrow> jsnumber \<Rightarrow> jsnumber" where
  "Math_max NaN b = NaN"
| "Math_max a NaN = NaN"
| "Math_max PosInfinity b = PosInfinity"
| "Math_max a PosInfinity = PosInfinity"
| "Math_max NegInfinity b = b"
| "Math_max a NegInfinity = a"
| "Math_max (Num x) (Num y) = Num (max x y)"

fun Math_min :: "jsnumber \<Rightarrow> jsnumber \<Rightarrow> jsnumber" where
  "Math_min NaN b = NaN"
| "Math_min a NaN = NaN"
| "Math_min NegInfinity b = NegInfinity"
| "Math_min a NegInfinity = NegInfinity"
| "Math_min PosInfinity b = b"
| "Math_min a PosInfinity = a"
| "Math_min (Num x) (Num y) = Num (min x y)"

fun round_js :: "jsnumber \<Rightarrow> jsnumber" where
  "round_js (Num v) = Num (of_int (Math_round v))"
| "round_js a = a"

text \<open>The operand \<^verbatim>\<open>v || d\<close> on a number: \<open>d\<close> when \<open>v\<close> is zero or NaN.\<close>

fun orElse_js :: "jsnumber \<Rightarrow> jsnumber \<Rightarrow> jsnumber" where
  "orElse_js (Num v) d = (if v = 0 then d else Num v)"
| "orElse_js NaN d = d"
| "orElse_js a d = a"

subsection \<open>Data model\<close>

datatype fontFamily = ArialBlack | CrimsonText | Papyrus | Impact

datatype backgroundMode = Off | White | Inverted

record TextElement =
  el_id :: jsstring
  content :: jsstring
  el_x :: real
  el_y :: real
  originalX :: "real option"
  originalY :: "real option"
  fontSize :: real
  color :: jsstring
  fontFamily :: fontFamily
  hasBackground :: bool
  backgroundColor :: jsstring
  backgroundMode :: backgroundMode
  capsLock :: bool
  scale :: jsnumber

text \<open>The window size read once from \<^verbatim>\<open>Dimensions.get('window')\<close>.\<close>

record window =
  screenWidth :: real
  screenHeight :: real

text \<open>The component state: the \<^verbatim>\<open>useState\<close> cells and the \<^verbatim>\<open>dragStart\<close>
  ref. \<^verbatim>\<open>localTextContent\<close> is an object used as a dictionary; it is kept as an
  association list so that \<^verbatim>\<open>Object.entries\<close> can enumerate it.\<close>

record composer =
  textElements :: "TextElement list"
  selectedTextId :: jsstring
  isEditingText :: bool
  isPosting :: bool
  currentFontSize :: real
  localTextContent :: "(jsstring \<times> jsstring) list"
  canvasBackgroundColor :: jsstring
  backgroundGradient :: "jsstring list"
  showControlBar :: bool
  screenDarkened :: bool
  dragStart :: "jsstring \<rightharpoonup> real \<times> real"

definition maxLength :: nat where
  "maxLength = 500"

text \<open>The element literal shared by the initial state, \<^verbatim>\<open>handleCanvasTap\<close> and
  \<^verbatim>\<open>createNewTextElement\<close>.\<close>

definition newTextElement :: "jsstring \<Rightarrow> real \<Rightarrow> real \<Rightarrow> TextElement" where
  "newTextElement i px py =
     \<lparr>el_id = i, content = [], el_x = px, el_y = py, originalX = None, originalY = None,
      fontSize = 24, color = str ''#FF1A1A'', fontFamily = ArialBlack, hasBackground = False,
      backgroundColor = str ''#FFFFFF'', backgroundMode = Off, capsLock = True, scale = Num 1\<rparr>"

definition initialState :: "window \<Rightarrow> composer" where
  "initialState w =
     \<lparr>textElements = [newTextElement (str ''1'') (screenWidth w / 2) (screenHeight w * 0.3)],
      selectedTextId = str ''1'', isEditingText = False, isPosting = False,
      currentFontSize = 24, localTextContent = [], canvasBackgroundColor = str ''#F8F8FF'',
      backgroundGradient = [], showControlBar = False, screenDarkened = False,
      dragStart = Map.empty\<rparr>"

subsection \<open>Store and buffer operations\<close>

definition findById :: "jsstring \<Rightarrow> TextElement list \<Rightarrow> TextElement option" where
  "findById i els = find (\<lambda>el. el_id el = i) els"

definition getCurrentTextElement :: "composer \<Rightarrow> TextElement option" where
  "getCurrentTextElement r =
     (case findById (selectedTextId r) (textElements r) of
        Some el \<Rightarrow> Some el
      | None \<Rightarrow> (case textElements r of [] \<Rightarrow> None | el # _ \<Rightarrow> Some el))"

text \<open>\<^verbatim>\<open>updateTextElement(id, updates)\<close>; the partial object \<^verbatim>\<open>updates\<close> is the
  function that overwrites its fields.\<close>

definition updateTextElement ::
  "jsstring \<Rightarrow> (TextElement \<Rightarrow> TextElement) \<Rightarrow> composer \<Rightarrow> composer" where
  "updateTextElement i updates p =
     p\<lparr>textElements := map (\<lambda>el. if el_id el = i then updates el else el) (textElements p)\<rparr>"

definition handleTextInputChange :: "jsstring \<Rightarrow> jsstring \<Rightarrow> composer \<Rightarrow> composer" where
  "handleTextInputChange i text p =
     p\<lparr>localTextContent := AList.update i text (localTextContent p)\<rparr>"

definition getDisplayText :: "composer \<Rightarrow> TextElement \<Rightarrow> jsstring" where
  "getDisplayText r element =
     (case map_of (localTextContent r) (el_id element) of
        Some t \<Rightarrow> t
      | None \<Rightarrow> content element)"

subsection \<open>Hit testing and deletion\<close>

definition hitBox :: "real \<Rightarrow> real \<Rightarrow> TextElement \<Rightarrow> bool" where
  "hitBox px py element =
     (let elementX = el_x element - 100;
          elementY = el_y element - 25;
          isFirstElement = (el_id element = str ''1'');
          elementWidth = (if isFirstElement then 300 else 200);
          elementHeight = (if isFirstElement then 80 else 50)
      in px \<ge> elementX \<and> px \<le> elementX + elementWidth \<and>
         py \<ge> elementY \<and> py \<le> elementY + elementHeight)"

definition findElementAtPosition :: "composer \<Rightarrow> real \<Rightarrow> real \<Rightarrow> TextElement option" where
  "findElementAtPosition r px py = find (hitBox px py) (textElements r)"

definition deleteTextElement :: "jsstring \<Rightarrow> composer \<Rightarrow> composer" where
  "deleteTextElement i r =
     (if length (textElements r) > 1 then
        let p = r\<lparr>textElements := filter (\<lambda>el. el_id el \<noteq> i) (textElements r)\<rparr>
        in if selectedTextId r = i
           then p\<lparr>selectedTextId :=
                    (case find (\<lambda>el. el_id el \<noteq> i) (textElements r) of
                       Some el \<Rightarrow> el_id el
                     | None \<Rightarrow> [])\<rparr>
           else p
      else r)"

subsection \<open>Edit mode\<close>

text \<open>\<^verbatim>\<open>moveTextIntoViewForEditing\<close> assigns to the fields of the object that
  \<^verbatim>\<open>find\<close> returned: the first element of the rendered list with that id. The object
  is shared with the pending list (which, at each call site, is the rendered list, possibly
  with a new element appended), so the assignment is the update of the first element with
  that id there; when the rendered list has no such element nothing is assigned.\<close>

fun assignFirst :: "('a \<Rightarrow> bool) \<Rightarrow> ('a \<Rightarrow> 'a) \<Rightarrow> 'a list \<Rightarrow> 'a list" where
  "assignFirst P f [] = []"
| "assignFirst P f (a # as) = (if P a then f a # as else a # assignFirst P f as)"

definition isOffScreen :: "window \<Rightarrow> real \<Rightarrow> real \<Rightarrow> bool" where
  "isOffScreen w px py =
     (let margin = 100
      in px < margin \<or> px > screenWidth w - margin \<or>
         py < margin \<or> py > screenHeight w - margin)"

definition relocate :: "window \<Rightarrow> TextElement \<Rightarrow> TextElement" where
  "relocate w element =
     (let element1 = element\<lparr>originalX := Some (el_x element), originalY := Some (el_y element)\<rparr>
      in if isOffScreen w (el_x element1) (el_y element1)
         then element1\<lparr>el_x := screenWidth w * 0.5, el_y := screenHeight w * 0.3\<rparr>
         else element1)"

definition moveTextIntoViewForEditing ::
  "window \<Rightarrow> jsstring \<Rightarrow> composer \<Rightarrow> composer \<Rightarrow> composer" where
  "moveTextIntoViewForEditing w i r p =
     (case findById i (textElements r) of
        None \<Rightarrow> p
      | Some element \<Rightarrow>
          p\<lparr>textElements := assignFirst (\<lambda>el. el_id el = i) (relocate w) (textElements p)\<rparr>)"

definition startEditingText :: "window \<Rightarrow> jsstring \<Rightarrow> composer \<Rightarrow> composer \<Rightarrow> composer" where
  "startEditingText w i r p =
     (let p1 = p\<lparr>selectedTextId := i, isEditingText := True,
                 screenDarkened := True, showControlBar := True\<rparr>;
          p2 = moveTextIntoViewForEditing w i r p1
      in case findById i (textElements r) of
           None \<Rightarrow> p2
         | Some element \<Rightarrow>
             p2\<lparr>localTextContent := AList.update i (content element) (localTextContent p2),
                currentFontSize := fontSize element\<rparr>)"

definition commitEntry :: "real \<Rightarrow> jsstring \<times> jsstring \<Rightarrow> composer \<Rightarrow> composer" where
  "commitEntry fs entry p =
     updateTextElement (fst entry) (\<lambda>el. el\<lparr>content := snd entry, fontSize := fs\<rparr>) p"

definition stopEditingText :: "composer \<Rightarrow> composer \<Rightarrow> composer" where
  "stopEditingText r p =
     (let p1 = fold (commitEntry (currentFontSize r)) (localTextContent r) p
      in p1\<lparr>isEditingText := False, screenDarkened := False, showControlBar := False,
            localTextContent := []\<rparr>)"

text \<open>The branch of \<^verbatim>\<open>handleCanvasTap\<close> taken while editing, up to the call of
  \<^verbatim>\<open>stopEditingText\<close>: the selected element is removed when what was typed into it
  is blank.\<close>

definition removeIfEmpty :: "composer \<Rightarrow> composer" where
  "removeIfEmpty r =
     (case getCurrentTextElement r of
        None \<Rightarrow> r
      | Some currentElement \<Rightarrow>
          let currentContent = getDisplayText r currentElement
          in if trim currentContent = []
             then r\<lparr>textElements := filter (\<lambda>el. el_id el \<noteq> el_id currentElement) (textElements r),
                    selectedTextId := [],
                    localTextContent := AList.delete (el_id currentElement) (localTextContent r)\<rparr>
             else r)"

text \<open>\<^verbatim>\<open>handleCanvasTap\<close>. \<open>newId\<close> is \<^verbatim>\<open>Date.now().toString()\<close>, and
  \<open>locationX\<close>, \<open>locationY\<close> are the coordinates of the native event.\<close>

definition handleCanvasTap :: "window \<Rightarrow> jsstring \<Rightarrow> real \<Rightarrow> real \<Rightarrow> composer \<Rightarrow> composer" where
  "handleCanvasTap w newId locationX locationY r =
     (if isEditingText r then stopEditingText r (removeIfEmpty r)
      else case findElementAtPosition r locationX locationY of
             Some tappedElement \<Rightarrow>
               startEditingText w (el_id tappedElement) r
                 (r\<lparr>selectedTextId := el_id tappedElement\<rparr>)
           | None \<Rightarrow>
               startEditingText w newId r
                 (r\<lparr>textElements := textElements r @ [newTextElement newId locationX locationY],
                    selectedTextId := newId\<rparr>))"

definition createNewTextElement :: "window \<Rightarrow> jsstring \<Rightarrow> composer \<Rightarrow> composer" where
  "createNewTextElement w newId r =
     startEditingText w newId r
       (r\<lparr>textElements :=
            textElements r @ [newTextElement newId (screenWidth w / 2) (screenHeight w * 0.3)],
          selectedTextId := newId\<rparr>)"

text \<open>The press handler of the background control of the bottom bar.\<close>

definition nextMode :: "backgroundMode \<Rightarrow> backgroundMode" where
  "nextMode m = (if m = Off then White else if m = White then Inverted else Off)"

definition pressBackgroundControl :: "composer \<Rightarrow> composer" where
  "pressBackgroundControl r =
     (case getCurrentTextElement r of
        None \<Rightarrow> r
      | Some current \<Rightarrow>
          updateTextElement (el_id current)
            (\<lambda>el. el\<lparr>backgroundMode := nextMode (backgroundMode current)\<rparr>) r)"

subsection \<open>Gestures\<close>

datatype gestureState = UNDETERMINED | FAILED | BEGAN | CANCELLED | ACTIVE | END

definition handlePanStateChange :: "gestureState \<Rightarrow> jsstring \<Rightarrow> composer \<Rightarrow> composer" where
  "handlePanStateChange st elementId r =
     (let r1 = (if st = BEGAN
                then (case findById elementId (textElements r) of
                        Some el \<Rightarrow> r\<lparr>dragStart := (dragStart r)(elementId \<mapsto> (el_x el, el_y el))\<rparr>
                      | None \<Rightarrow> r)
                else r)
      in if st = END \<or> st = CANCELLED \<or> st = FAILED
         then r1\<lparr>dragStart := (dragStart r1)(elementId := None)\<rparr>
         else r1)"

definition handlePanGesture ::
  "gestureState \<Rightarrow> real \<Rightarrow> real \<Rightarrow> jsstring \<Rightarrow> composer \<Rightarrow> composer" where
  "handlePanGesture st translationX translationY elementId r =
     (if st \<noteq> ACTIVE \<or> isEditingText r then r
      else case dragStart r elementId of
             None \<Rightarrow> r
           | Some start \<Rightarrow>
               let newX = fst start + translationX;
                   newY = snd start + translationY
               in updateTextElement elementId (\<lambda>el. el\<lparr>el_x := newX, el_y := newY\<rparr>) r)"

definition handlePinchGesture ::
  "gestureState \<Rightarrow> jsnumber \<Rightarrow> jsstring \<Rightarrow> composer \<Rightarrow> composer" where
  "handlePinchGesture st gestureScale elementId r =
     (if st = ACTIVE
      then (case findById elementId (textElements r) of
              Some element \<Rightarrow>
                if \<not> isEditingText r
                then let newScale =
                           Math_max (Num 0.3)
                             (Math_min (Num 5.0) (times_js (scale element) gestureScale))
                     in updateTextElement elementId (\<lambda>el. el\<lparr>scale := newScale\<rparr>) r
                else r
            | None \<Rightarrow> r)
      else r)"

subsection \<open>Rendering style\<close>

text \<open>The fields of \<^verbatim>\<open>getTextStyle\<close> that depend on the element; the font table
  \<^verbatim>\<open>FontChoices\<close> and the constant alignment fields are left out.\<close>

record textStyle =
  style_fontSize :: real
  style_color :: jsstring
  style_backgroundColor :: jsstring
  style_hasPadding :: bool
  style_uppercase :: bool
  style_scale :: jsnumber

definition getTextStyle :: "TextElement \<Rightarrow> textStyle" where
  "getTextStyle element =
     (let textColor = (if backgroundMode element = Inverted then str ''#FFFFFF'' else color element);
          bgColor = (if backgroundMode element = White then str ''#FFFFFF''
                     else if backgroundMode element = Inverted then color element
                     else str ''transparent'');
          hasPadding = (backgroundMode element = White \<or> backgroundMode element = Inverted)
      in \<lparr>style_fontSize = fontSize element, style_color = textColor,
          style_backgroundColor = bgColor, style_hasPadding = hasPadding,
          style_uppercase = capsLock element, style_scale = scale element\<rparr>)"

subsection \<open>Submission\<close>

datatype validationError = EmptyContent | TooLong

record exportedElement =
  ex_content :: jsstring
  ex_x :: real
  ex_y :: real
  ex_fontSize :: jsnumber
  ex_color :: jsstring
  ex_fontFamily :: fontFamily
  ex_hasBackground :: bool
  ex_backgroundColor :: jsstring

text \<open>The payload handed to \<^verbatim>\<open>api.post\<close>. \<^verbatim>\<open>repost_data\<close>, which is built
  from the component's props alone, is left out.\<close>

record PostCreate =
  text_content :: jsstring
  text_elements :: "exportedElement list"
  font_choice :: fontFamily
  font_size :: jsnumber
  text_color :: jsstring
  background_color :: jsstring
  background_gradient :: "jsstring list option"
  has_outline :: bool
  outline_color :: jsstring
  has_text_background :: bool
  text_background_color :: "jsstring option"
  canvas_width :: int
  canvas_height :: int

definition currentElements :: "composer \<Rightarrow> TextElement list" where
  "currentElements r = map (\<lambda>el. el\<lparr>content := getDisplayText r el\<rparr>) (textElements r)"

definition allText :: "composer \<Rightarrow> jsstring" where
  "allText r =
     join (str '' '') (map content (filter (\<lambda>el. trim (content el) \<noteq> []) (currentElements r)))"

definition exportElement :: "TextElement \<Rightarrow> exportedElement" where
  "exportElement el =
     \<lparr>ex_content = content el, ex_x = el_x el, ex_y = el_y el,
      ex_fontSize = round_js (times_js (Num (fontSize el)) (scale el)), ex_color = color el,
      ex_fontFamily = fontFamily el, ex_hasBackground = hasBackground el,
      ex_backgroundColor = backgroundColor el\<rparr>"

definition postData :: "window \<Rightarrow> composer \<Rightarrow> PostCreate" where
  "postData w r =
     (let first = (case currentElements r of [] \<Rightarrow> None | el # _ \<Rightarrow> Some el)
      in \<lparr>text_content = allText r,
          text_elements = map exportElement (currentElements r),
          font_choice = (case first of None \<Rightarrow> ArialBlack | Some el \<Rightarrow> fontFamily el),
          font_size =
            round_js
              (times_js
                 (Num (case first of None \<Rightarrow> 24
                       | Some el \<Rightarrow> if fontSize el = 0 then 24 else fontSize el))
                 (case first of None \<Rightarrow> Num 1 | Some el \<Rightarrow> orElse_js (scale el) (Num 1))),
          text_color =
            (case first of None \<Rightarrow> str ''#FF1A1A''
             | Some el \<Rightarrow> if color el = [] then str ''#FF1A1A'' else color el),
          background_color = canvasBackgroundColor r,
          background_gradient =
            (if length (backgroundGradient r) > 0 then Some (backgroundGradient r) else None),
          has_outline = False,
          outline_color = str ''#000000'',
          has_text_background = (case first of None \<Rightarrow> False | Some el \<Rightarrow> hasBackground el),
          text_background_color =
            (case first of None \<Rightarrow> None
             | Some el \<Rightarrow> if hasBackground el then Some (backgroundColor el) else None),
          canvas_width = Math_round (screenWidth w),
          canvas_height = Math_round (screenHeight w)\<rparr>)"

text \<open>\<^verbatim>\<open>handlePost\<close> up to the network call. The result is the validation error
  shown by the alert, after which the handler returns, or the payload with which
  \<^verbatim>\<open>api.post\<close> is called; the state is the one the queued updates leave.\<close>

definition commitContent :: "jsstring \<times> jsstring \<Rightarrow> composer \<Rightarrow> composer" where
  "commitContent entry p = updateTextElement (fst entry) (\<lambda>el. el\<lparr>content := snd entry\<rparr>) p"

definition handlePost :: "window \<Rightarrow> composer \<Rightarrow> (validationError + PostCreate) \<times> composer" where
  "handlePost w r =
     (let p = fold commitContent (localTextContent r) r
      in if trim (allText r) = [] then (Inl EmptyContent, p)
         else if length (allText r) > maxLength then (Inl TooLong, p)
         else (Inr (postData w r), p\<lparr>isPosting := True\<rparr>))"

subsection \<open>The font-size slider\<close>

text \<open>The gesture handler of the slider shown while editing.\<close>

definition handleSliderGesture :: "real \<Rightarrow> composer \<Rightarrow> composer" where
  "handleSliderGesture translationY p =
     (let sliderHeight = 200;
          minFontSize = 8;
          maxFontSize = 72;
          progress = max 0 (min 1 (1 - translationY / sliderHeight));
          newFontSize = minFontSize + progress * (maxFontSize - minFontSize)
      in p\<lparr>currentFontSize := newFontSize\<rparr>)"

subsection \<open>Sequences of gesture frames\<close>

text \<open>A pinch delivers frames, each with a state and a scale factor; a drag delivers a
  BEGAN state change, active frames with the translation since the start, and a final
  state change. Each frame is handled on the state the previous one left.\<close>

definition pinchFrames ::
  "(gestureState \<times> jsnumber) list \<Rightarrow> jsstring \<Rightarrow> composer \<Rightarrow> composer" where
  "pinchFrames frames elementId r =
     fold (\<lambda>fr. handlePinchGesture (fst fr) (snd fr) elementId) frames r"

definition panFrames :: "(real \<times> real) list \<Rightarrow> jsstring \<Rightarrow> composer \<Rightarrow> composer" where
  "panFrames frames elementId r =
     fold (\<lambda>fr. handlePanGesture ACTIVE (fst fr) (snd fr) elementId) frames r"

fun scaleInRange :: "jsnumber \<Rightarrow> bool" where
  "scaleInRange (Num v) \<longleftrightarrow> 0.3 \<le> v \<and> v \<le> 5.0"
| "scaleInRange a \<longleftrightarrow> False"

definition scalesInRange :: "composer \<Rightarrow> bool" where
  "scalesInRange r \<longleftrightarrow> (\<forall>el \<in> set (textElements r). scaleInRange (scale el))"

subsection \<open>Example states\<close>

text \<open>A 390 by 844 window, the starter element of the initial state there, and the
  states reached from the initial state by tapping the starter element, typing into it,
  and moving the slider.\<close>

definition phone :: window where
  "phone = \<lparr>screenWidth = 390, screenHeight = 844\<rparr>"

definition starter :: TextElement where
  "starter = newTextElement (str ''1'') 195 (2532 / 10)"

definition starterEdited :: TextElement where
  "starterEdited = starter\<lparr>originalX := Some 195, originalY := Some (2532 / 10)\<rparr>"

definition editingStarter :: composer where
  "editingStarter = handleCanvasTap phone (str ''1700000000000'') 200 260 (initialState phone)"

definition typedHi :: composer where
  "typedHi =
     handleSliderGesture 100 (handleTextInputChange (str ''1'') (str ''hi'') editingStarter)"

text \<open>A second element, created by a tap at (10, 600) that misses the starter element,
  and the state after typing into it and tapping the canvas.\<close>

definition secondId :: jsstring where
  "secondId = str ''1700000000000''"

definition second :: TextElement where
  "second = (newTextElement secondId 10 600)\<lparr>content := str ''yo''\<rparr>"

definition creatingSecond :: composer where
  "creatingSecond = handleCanvasTap phone secondId 10 600 (initialState phone)"

definition twoElements :: composer where
  "twoElements =
     handleCanvasTap phone (str ''1700000000001'') 0 0
       (handleTextInputChange secondId (str ''yo'') creatingSecond)"

text \<open>The state of two elements after a tap on the starter element: the starter element
  is being edited and the second one is displayed.\<close>

definition editingFirstOfTwo :: composer where
  "editingFirstOfTwo = handleCanvasTap phone (str ''1700000000002'') 200 260 twoElements"

text \<open>The state after typing \<open>hi\<close> followed by a space into the starter element and
  tapping the canvas; the same with 500 letters followed by a space; and the state after
  pressing the background control once while typing \<open>hi\<close>, then tapping the canvas.\<close>

definition paddedHi :: composer where
  "paddedHi =
     handleCanvasTap phone (str ''1700000000001'') 0 0
       (handleTextInputChange (str ''1'') (str ''hi '') editingStarter)"

definition longText :: jsstring where
  "longText = replicate 500 (of_char CHR ''a'') @ str '' ''"

definition typedLong :: composer where
  "typedLong =
     handleCanvasTap phone (str ''1700000000001'') 0 0
       (handleTextInputChange (str ''1'') longText editingStarter)"

definition whiteHi :: composer where
  "whiteHi = handleCanvasTap phone (str ''1700000000001'') 0 0 (pressBackgroundControl typedHi)"

subsection \<open>Notions used in the statements\<close>

text \<open>The texts that pass the filter of \<^verbatim>\<open>handlePost\<close>, and the fields of an element
  that say where it is.\<close>

definition visibleTexts :: "composer \<Rightarrow> jsstring list" where
  "visibleTexts r = filter (\<lambda>t. trim t \<noteq> []) (map (getDisplayText r) (textElements r))"

definition placement :: "TextElement \<Rightarrow> jsstring \<times> real \<times> real \<times> real option \<times> real option" where
  "placement el = (el_id el, el_x el, el_y el, originalX el, originalY el)"

text \<open>The aggregate text in the words of the specification: the content values, trimmed,
  those that are non-empty, joined by single spaces.\<close>

definition claimedAggregate :: "composer \<Rightarrow> jsstring" where
  "claimedAggregate r =
     join (str '' '') (filter (\<lambda>t. t \<noteq> []) (map (\<lambda>el. trim (content el)) (textElements r)))"

text \<open>The hit box in the words of the specification: centred on the position of the
  element, 300 by 80 for the starter element and 200 by 50 for the others.\<close>

definition centredHitBox :: "real \<Rightarrow> real \<Rightarrow> TextElement \<Rightarrow> bool" where
  "centredHitBox px py element =
     (let isFirstElement = (el_id element = str ''1'');
          halfWidth = (if isFirstElement then 300 / 2 else 200 / 2);
          halfHeight = (if isFirstElement then 80 / 2 else 50 / 2)
      in \<bar>px - el_x element\<bar> \<le> halfWidth \<and> \<bar>py - el_y element\<bar> \<le> halfHeight)"

section \<open>Properties\<close>

subsection \<open>The example states, evaluated\<close>

lemma initialState_phone:
  "initialState phone =
     \<lparr>textElements = [starter],
      selectedTextId = str ''1'', isEditingText = False, isPosting = False,
      currentFontSize = 24, localTextContent = [], canvasBackgroundColor = str ''#F8F8FF'',
      backgroundGradient = [], showControlBar = False, screenDarkened = False,
      dragStart = Map.empty\<rparr>"
  by (simp add: initialState_def phone_def starter_def)

lemma hitBox_starter: "hitBox 200 260 starter"
  by (simp add: hitBox_def starter_def newTextElement_def Let_def)

lemma relocate_starter: "relocate phone starter = starterEdited"
  by (simp add: relocate_def isOffScreen_def phone_def starter_def starterEdited_def
      newTextElement_def Let_def)

lemma starter_fields:
  "el_id starter = str ''1''" "content starter = []" "fontSize starter = 24" "scale starter = Num 1"
  "el_x starter = 195" "el_y starter = 2532 / 10"
  by (simp_all add: starter_def newTextElement_def)

lemma starterEdited_fields:
  "el_id starterEdited = str ''1''" "content starterEdited = []" "fontSize starterEdited = 24"
  "scale starterEdited = Num 1" "el_x starterEdited = 195" "el_y starterEdited = 2532 / 10"
  by (simp_all add: starterEdited_def starter_fields)

lemma editingStarter_eq:
  "editingStarter =
     \<lparr>textElements = [starterEdited],
      selectedTextId = str ''1'', isEditingText = True, isPosting = False,
      currentFontSize = 24, localTextContent = [(str ''1'', [])],
      canvasBackgroundColor = str ''#F8F8FF'',
      backgroundGradient = [], showControlBar = True, screenDarkened = True,
      dragStart = Map.empty\<rparr>"
  by (simp add: editingStarter_def handleCanvasTap_def initialState_phone
      findElementAtPosition_def hitBox_starter startEditingText_def
      moveTextIntoViewForEditing_def findById_def Let_def relocate_starter starter_fields)

lemma typedHi_eq:
  "typedHi =
     \<lparr>textElements = [starterEdited],
      selectedTextId = str ''1'', isEditingText = True, isPosting = False,
      currentFontSize = 40, localTextContent = [(str ''1'', str ''hi'')],
      canvasBackgroundColor = str ''#F8F8FF'',
      backgroundGradient = [], showControlBar = True, screenDarkened = True,
      dragStart = Map.empty\<rparr>"
  by (simp add: typedHi_def editingStarter_eq handleSliderGesture_def handleTextInputChange_def
      Let_def)

lemma trim_hi: "trim (str ''hi'') = str ''hi''"
  by (simp add: trim_def str_def isWhiteSpace_def)

lemma trim_Nil: "trim [] = []"
  by (simp add: trim_def)


subsection \<open>Leaving edit mode\<close>

lemma fold_commitEntry:
  "distinct (map fst buf) \<Longrightarrow>
   fold (commitEntry fs) buf p =
     p\<lparr>textElements :=
         map (\<lambda>el. case map_of buf (el_id el) of
                     Some c \<Rightarrow> el\<lparr>content := c, fontSize := fs\<rparr>
                   | None \<Rightarrow> el) (textElements p)\<rparr>"
proof (induction buf arbitrary: p)
  case Nil
  then show ?case by simp
next
  case (Cons entry buf)
  obtain k v where entry: "entry = (k, v)" by (cases entry)
  from Cons.prems entry have k: "map_of buf k = None" and d: "distinct (map fst buf)"
    by (auto simp: map_of_eq_None_iff)
  have "fold (commitEntry fs) (entry # buf) p = fold (commitEntry fs) buf (commitEntry fs entry p)"
    by simp
  also have "\<dots> = (commitEntry fs entry p)\<lparr>textElements :=
         map (\<lambda>el. case map_of buf (el_id el) of
                     Some c \<Rightarrow> el\<lparr>content := c, fontSize := fs\<rparr>
                   | None \<Rightarrow> el) (textElements (commitEntry fs entry p))\<rparr>"
    by (rule Cons.IH [OF d])
  also have "\<dots> = p\<lparr>textElements :=
         map (\<lambda>el. case map_of (entry # buf) (el_id el) of
                     Some c \<Rightarrow> el\<lparr>content := c, fontSize := fs\<rparr>
                   | None \<Rightarrow> el) (textElements p)\<rparr>"
    using k by (simp add: commitEntry_def updateTextElement_def entry)
  finally show ?case .
qed

lemma removeIfEmpty_blank:
  assumes "getCurrentTextElement r = Some e" and "trim (getDisplayText r e) = []"
  shows "removeIfEmpty r =
           r\<lparr>textElements := filter (\<lambda>el. el_id el \<noteq> el_id e) (textElements r),
             selectedTextId := [],
             localTextContent := AList.delete (el_id e) (localTextContent r)\<rparr>"
  using assms by (simp add: removeIfEmpty_def)

lemma removeIfEmpty_nonblank:
  assumes "getCurrentTextElement r = Some e" and "trim (getDisplayText r e) \<noteq> []"
  shows "removeIfEmpty r = r"
  using assms by (simp add: removeIfEmpty_def)

lemma stopEditingText_eq:
  assumes "distinct (map fst (localTextContent r))"
  shows "stopEditingText r p =
     p\<lparr>textElements :=
         map (\<lambda>el. case map_of (localTextContent r) (el_id el) of
                     Some c \<Rightarrow> el\<lparr>content := c, fontSize := currentFontSize r\<rparr>
                   | None \<Rightarrow> el) (textElements p),
       isEditingText := False, screenDarkened := False, showControlBar := False,
       localTextContent := []\<rparr>"
  by (simp add: stopEditingText_def fold_commitEntry [OF assms])


text \<open>The keys of the buffer stay distinct, as those of the object they stand for.\<close>

lemma localTextContent_moveTextIntoViewForEditing:
  "localTextContent (moveTextIntoViewForEditing w i r p) = localTextContent p"
  by (cases "findById i (textElements r)") (simp_all add: moveTextIntoViewForEditing_def)

lemma distinct_buffer_startEditingText:
  assumes "distinct (map fst (localTextContent p))"
  shows "distinct (map fst (localTextContent (startEditingText w i r p)))"
proof (cases "findById i (textElements r)")
  case None
  then show ?thesis
    using assms
    by (simp add: startEditingText_def Let_def localTextContent_moveTextIntoViewForEditing)
next
  case (Some e)
  then show ?thesis
    using assms
    by (simp add: startEditingText_def Let_def localTextContent_moveTextIntoViewForEditing
        distinct_update)
qed

lemma distinct_buffer_handleTextInputChange:
  "distinct (map fst (localTextContent p)) \<Longrightarrow>
   distinct (map fst (localTextContent (handleTextInputChange i t p)))"
  by (simp add: handleTextInputChange_def distinct_update)

lemma distinct_buffer_handleCanvasTap:
  assumes "distinct (map fst (localTextContent r))"
  shows "distinct (map fst (localTextContent (handleCanvasTap w n px py r)))"
proof (cases "isEditingText r")
  case True
  then show ?thesis by (simp add: handleCanvasTap_def stopEditingText_def Let_def)
next
  case False
  show ?thesis
  proof (cases "findElementAtPosition r px py")
    case None
    have "distinct (map fst (localTextContent
        (r\<lparr>textElements := textElements r @ [newTextElement n px py], selectedTextId := n\<rparr>)))"
      using assms by simp
    then show ?thesis
      using False None distinct_buffer_startEditingText by (simp add: handleCanvasTap_def)
  next
    case (Some e)
    have "distinct (map fst (localTextContent (r\<lparr>selectedTextId := el_id e\<rparr>)))"
      using assms by simp
    then show ?thesis
      using False Some distinct_buffer_startEditingText by (simp add: handleCanvasTap_def)
  qed
qed

text \<open>
  C1. A canvas tap while editing, with \<open>e\<close> the element being edited (the selected one),
  leaves edit mode: every entry of the local edit buffer is written into the elements with
  its id, content and the current editing font size both; when what was typed into \<open>e\<close>
  is blank after trimming, \<open>e\<close> is removed from the store and the selection is cleared;
  afterwards the buffer is empty and the editing flag is false. The canvas tap is the only
  caller of \<^verbatim>\<open>stopEditingText\<close>.
\<close>

theorem canvas_tap_exits_editing:
  assumes "isEditingText r"
    and "getCurrentTextElement r = Some e"
    and "distinct (map fst (localTextContent r))"
  shows "localTextContent (handleCanvasTap w newId locationX locationY r) = [] \<and>
         \<not> isEditingText (handleCanvasTap w newId locationX locationY r) \<and>
         textElements (handleCanvasTap w newId locationX locationY r) =
           map (\<lambda>el. case map_of (localTextContent r) (el_id el) of
                       Some c \<Rightarrow> el\<lparr>content := c, fontSize := currentFontSize r\<rparr>
                     | None \<Rightarrow> el)
             (filter (\<lambda>el. trim (getDisplayText r e) = [] \<longrightarrow> el_id el \<noteq> el_id e)
                (textElements r)) \<and>
         (trim (getDisplayText r e) = [] \<longrightarrow>
            selectedTextId (handleCanvasTap w newId locationX locationY r) = [] \<and>
            (\<forall>el \<in> set (textElements (handleCanvasTap w newId locationX locationY r)).
               el_id el \<noteq> el_id e)) \<and>
         (trim (getDisplayText r e) \<noteq> [] \<longrightarrow>
            selectedTextId (handleCanvasTap w newId locationX locationY r) = selectedTextId r)"
proof (cases "trim (getDisplayText r e) = []")
  case True
  have "handleCanvasTap w newId locationX locationY r = stopEditingText r (removeIfEmpty r)"
    using assms(1) by (simp add: handleCanvasTap_def)
  then show ?thesis
    using True by (auto simp: stopEditingText_eq [OF assms(3)] removeIfEmpty_blank [OF assms(2) True]
        split: option.splits)
next
  case False
  have "handleCanvasTap w newId locationX locationY r = stopEditingText r (removeIfEmpty r)"
    using assms(1) by (simp add: handleCanvasTap_def)
  then show ?thesis
    using False by (simp add: stopEditingText_eq [OF assms(3)] removeIfEmpty_nonblank [OF assms(2) False])
qed

theorem canvas_tap_exits_editing_witness:
  "isEditingText typedHi \<and> getCurrentTextElement typedHi = Some starterEdited \<and>
   distinct (map fst (localTextContent typedHi)) \<and>
   trim (getDisplayText typedHi starterEdited) \<noteq> [] \<and>
   textElements (handleCanvasTap phone (str ''1700000000001'') 10 10 typedHi) =
     [starterEdited\<lparr>content := str ''hi'', fontSize := 40\<rparr>] \<and>
   localTextContent (handleCanvasTap phone (str ''1700000000001'') 10 10 typedHi) = [] \<and>
   \<not> isEditingText (handleCanvasTap phone (str ''1700000000001'') 10 10 typedHi) \<and>
   isEditingText editingStarter \<and> getCurrentTextElement editingStarter = Some starterEdited \<and>
   distinct (map fst (localTextContent editingStarter)) \<and>
   trim (getDisplayText editingStarter starterEdited) = [] \<and>
   textElements (handleCanvasTap phone (str ''1700000000001'') 10 10 editingStarter) = [] \<and>
   selectedTextId (handleCanvasTap phone (str ''1700000000001'') 10 10 editingStarter) = []"
proof -
  have a: "isEditingText typedHi" "distinct (map fst (localTextContent typedHi))"
    "getCurrentTextElement typedHi = Some starterEdited"
    by (simp_all add: typedHi_eq getCurrentTextElement_def findById_def starterEdited_fields)
  have b: "isEditingText editingStarter" "distinct (map fst (localTextContent editingStarter))"
    "getCurrentTextElement editingStarter = Some starterEdited"
    by (simp_all add: editingStarter_eq getCurrentTextElement_def findById_def
        starterEdited_fields)
  have c: "getDisplayText typedHi starterEdited = str ''hi''"
    "getDisplayText editingStarter starterEdited = []"
    by (simp_all add: getDisplayText_def typedHi_eq editingStarter_eq starterEdited_fields)
  have d: "localTextContent typedHi = [(str ''1'', str ''hi'')]" "currentFontSize typedHi = 40"
    "textElements typedHi = [starterEdited]"
    "localTextContent editingStarter = [(str ''1'', [])]"
    "textElements editingStarter = [starterEdited]"
    by (simp_all add: typedHi_eq editingStarter_eq)
  have e: "str ''hi'' \<noteq> []" by (simp add: str_def)
  show ?thesis
    using canvas_tap_exits_editing [OF a(1) a(3) a(2), of phone "str ''1700000000001''" 10 10]
      canvas_tap_exits_editing [OF b(1) b(3) b(2), of phone "str ''1700000000001''" 10 10]
    by (simp add: a b c d e trim_hi trim_Nil starterEdited_fields)
qed

subsection \<open>More example states, evaluated\<close>

lemma findById_starter: "findById (str ''1'') (textElements (initialState phone)) = Some starter"
  by (simp add: initialState_phone findById_def starter_fields)

lemma secondId_neq: "secondId \<noteq> str ''1''" "str ''1'' \<noteq> secondId"
  by (simp_all add: secondId_def str_def)

lemma second_fields:
  "el_id second = secondId" "content second = str ''yo''" "fontSize second = 24"
  "scale second = Num 1" "el_x second = 10" "el_y second = 600"
  by (simp_all add: second_def newTextElement_def)

lemma not_hitBox_starter: "\<not> hitBox 10 600 starter"
  by (simp add: hitBox_def starter_def newTextElement_def Let_def)

lemma creatingSecond_eq:
  "creatingSecond =
     \<lparr>textElements = [starter, newTextElement secondId 10 600],
      selectedTextId = secondId, isEditingText = True, isPosting = False,
      currentFontSize = 24, localTextContent = [],
      canvasBackgroundColor = str ''#F8F8FF'',
      backgroundGradient = [], showControlBar = True, screenDarkened = True,
      dragStart = Map.empty\<rparr>"
  by (simp add: creatingSecond_def handleCanvasTap_def initialState_phone
      findElementAtPosition_def not_hitBox_starter startEditingText_def
      moveTextIntoViewForEditing_def findById_def Let_def starter_fields secondId_neq)

lemma trim_yo: "trim (str ''yo'') = str ''yo''"
  by (simp add: trim_def str_def isWhiteSpace_def)

lemma yo_nonempty: "str ''yo'' \<noteq> []"
  by (simp add: str_def)

lemma twoElements_eq:
  "twoElements =
     \<lparr>textElements = [starter, second],
      selectedTextId = secondId, isEditingText = False, isPosting = False,
      currentFontSize = 24, localTextContent = [],
      canvasBackgroundColor = str ''#F8F8FF'',
      backgroundGradient = [], showControlBar = False, screenDarkened = False,
      dragStart = Map.empty\<rparr>"
  by (simp add: twoElements_def creatingSecond_eq handleTextInputChange_def handleCanvasTap_def
      removeIfEmpty_def getCurrentTextElement_def findById_def starter_fields secondId_neq
      getDisplayText_def trim_yo yo_nonempty stopEditingText_def commitEntry_def
      updateTextElement_def second_def newTextElement_def)

subsection \<open>Drag\<close>

lemma handlePanGesture_keeps:
  "dragStart (handlePanGesture st tx ty i r) = dragStart r"
  "isEditingText (handlePanGesture st tx ty i r) = isEditingText r"
  by (simp_all add: handlePanGesture_def updateTextElement_def Let_def split: option.splits)

lemma panFrames_keeps:
  "dragStart (panFrames frames i r) = dragStart r \<and>
   isEditingText (panFrames frames i r) = isEditingText r"
  unfolding panFrames_def
  by (induction frames arbitrary: r) (simp_all add: handlePanGesture_keeps)

lemma panFrames_snoc:
  "panFrames (frames @ [fr]) i r = handlePanGesture ACTIVE (fst fr) (snd fr) i (panFrames frames i r)"
  by (simp add: panFrames_def)

lemma handlePanGesture_active:
  assumes "\<not> isEditingText r" and "dragStart r i = Some (sx, sy)"
  shows "textElements (handlePanGesture ACTIVE tx ty i r) =
           map (\<lambda>el. if el_id el = i then el\<lparr>el_x := sx + tx, el_y := sy + ty\<rparr> else el)
             (textElements r)"
  using assms by (simp add: handlePanGesture_def updateTextElement_def Let_def)

lemma panFrames_store:
  assumes "\<not> isEditingText r" and "dragStart r i = Some (sx, sy)" and "frames \<noteq> []"
  shows "textElements (panFrames frames i r) =
           map (\<lambda>el. if el_id el = i
                      then el\<lparr>el_x := sx + fst (last frames), el_y := sy + snd (last frames)\<rparr>
                      else el)
             (textElements r)"
  using assms(3)
proof (induction frames rule: rev_induct)
  case Nil
  then show ?case by simp
next
  case (snoc fr frames)
  have ne: "\<not> isEditingText (panFrames frames i r)"
    and ds: "dragStart (panFrames frames i r) i = Some (sx, sy)"
    using assms(1,2) by (simp_all add: panFrames_keeps)
  have step: "textElements (panFrames (frames @ [fr]) i r) =
      map (\<lambda>el. if el_id el = i then el\<lparr>el_x := sx + fst fr, el_y := sy + snd fr\<rparr> else el)
        (textElements (panFrames frames i r))"
    by (simp add: panFrames_snoc handlePanGesture_active [OF ne ds])
  show ?case
  proof (cases "frames = []")
    case True
    then show ?thesis using step by (simp add: panFrames_def)
  next
    case False
    then show ?thesis using step snoc.IH by (simp add: comp_def if_distrib cong: if_cong)
  qed
qed

lemma handlePanStateChange_began:
  assumes "findById i (textElements r) = Some e"
  shows "handlePanStateChange BEGAN i r = r\<lparr>dragStart := (dragStart r)(i \<mapsto> (el_x e, el_y e))\<rparr>"
  using assms by (simp add: handlePanStateChange_def)

lemma handlePanStateChange_final:
  assumes "st = END \<or> st = CANCELLED \<or> st = FAILED"
  shows "handlePanStateChange st i r = r\<lparr>dragStart := (dragStart r)(i := None)\<rparr>"
  using assms by (auto simp: handlePanStateChange_def)

lemma editingFirstOfTwo_eq:
  "editingFirstOfTwo =
     \<lparr>textElements = [starterEdited, second],
      selectedTextId = str ''1'', isEditingText = True, isPosting = False,
      currentFontSize = 24, localTextContent = [(str ''1'', [])],
      canvasBackgroundColor = str ''#F8F8FF'',
      backgroundGradient = [], showControlBar = True, screenDarkened = True,
      dragStart = Map.empty\<rparr>"
  by (simp add: editingFirstOfTwo_def handleCanvasTap_def twoElements_eq
      findElementAtPosition_def hitBox_starter startEditingText_def
      moveTextIntoViewForEditing_def findById_def Let_def relocate_starter starter_fields)

lemma panFrames_editing: "isEditingText r \<Longrightarrow> panFrames frames i r = r"
  unfolding panFrames_def by (induction frames) (simp_all add: handlePanGesture_def)

text \<open>
  C6, as the code has it. A drag while no element is being edited (the editing flag is one
  flag for the whole canvas). The BEGAN state change records the element's position in
  \<^verbatim>\<open>dragStart\<close> and leaves the store alone; after any non-empty run of active frames the
  element is at the recorded position plus the translation of the last frame (the
  translation counts from the start of the gesture), whatever that position is, and the
  other elements are untouched; the END, CANCELLED or FAILED state change drops the record
  and leaves the store as the last active frame left it.
\<close>

theorem drag_follows_translation:
  assumes "\<not> isEditingText r"
    and "findById i (textElements r) = Some e"
    and "frames \<noteq> []"
    and "st = END \<or> st = CANCELLED \<or> st = FAILED"
  shows "dragStart (handlePanStateChange BEGAN i r) i = Some (el_x e, el_y e) \<and>
         textElements (handlePanStateChange BEGAN i r) = textElements r \<and>
         textElements (panFrames frames i (handlePanStateChange BEGAN i r)) =
           map (\<lambda>el. if el_id el = i
                      then el\<lparr>el_x := el_x e + fst (last frames),
                              el_y := el_y e + snd (last frames)\<rparr>
                      else el)
             (textElements r) \<and>
         textElements (handlePanStateChange st i (panFrames frames i (handlePanStateChange BEGAN i r))) =
           textElements (panFrames frames i (handlePanStateChange BEGAN i r)) \<and>
         dragStart (handlePanStateChange st i (panFrames frames i (handlePanStateChange BEGAN i r))) i =
           None"
proof -
  let ?r0 = "handlePanStateChange BEGAN i r"
  have r0: "?r0 = r\<lparr>dragStart := (dragStart r)(i \<mapsto> (el_x e, el_y e))\<rparr>"
    by (rule handlePanStateChange_began [OF assms(2)])
  have ne: "\<not> isEditingText ?r0" and ds: "dragStart ?r0 i = Some (el_x e, el_y e)"
    and te: "textElements ?r0 = textElements r"
    using assms(1) by (simp_all add: r0)
  have "textElements (panFrames frames i ?r0) =
           map (\<lambda>el. if el_id el = i
                      then el\<lparr>el_x := el_x e + fst (last frames),
                              el_y := el_y e + snd (last frames)\<rparr>
                      else el)
             (textElements ?r0)"
    by (rule panFrames_store [OF ne ds assms(3)])
  then show ?thesis
    using ds te by (simp add: handlePanStateChange_final [OF assms(4)])
qed

theorem drag_follows_translation_witness:
  "\<not> isEditingText (initialState phone) \<and>
   findById (str ''1'') (textElements (initialState phone)) = Some starter \<and>
   textElements (handlePanStateChange END (str ''1'')
     (panFrames [(10, 5), (- 300, 1000)] (str ''1'')
        (handlePanStateChange BEGAN (str ''1'') (initialState phone)))) =
     [starter\<lparr>el_x := - 105, el_y := 12532 / 10\<rparr>]"
proof -
  have a: "\<not> isEditingText (initialState phone)" by (simp add: initialState_phone)
  have b: "textElements (initialState phone) = [starter]" by (simp add: initialState_phone)
  have f: "findById (str ''1'') [starter] = Some starter"
    by (simp add: findById_def starter_fields)
  show ?thesis
    using drag_follows_translation [OF a findById_starter, of "[(10, 5), (- 300, 1000)]" END]
    by (simp add: a b f starter_fields)
qed

text \<open>
  C6, as stated, fails: it speaks of every element that is not the one being edited. With
  the starter element being edited and the second element displayed at (10, 600), a drag
  on the second element records its position and then moves nothing: after the frames
  with translations (10, 5) and (40, 40) the element is still at (10, 600).
\<close>

theorem drag_while_other_edited_counterexample:
  "isEditingText editingFirstOfTwo \<and>
   selectedTextId editingFirstOfTwo = str ''1'' \<and>
   str ''1'' \<noteq> secondId \<and>
   findById secondId (textElements editingFirstOfTwo) = Some second \<and>
   el_x second = 10 \<and> el_y second = 600 \<and>
   dragStart (handlePanStateChange BEGAN secondId editingFirstOfTwo) secondId = Some (10, 600) \<and>
   findById secondId (textElements
     (panFrames [(10, 5), (40, 40)] secondId
        (handlePanStateChange BEGAN secondId editingFirstOfTwo))) = Some second \<and>
   second \<noteq> second\<lparr>el_x := 10 + 40, el_y := 600 + 40\<rparr>"
proof -
  have a: "textElements editingFirstOfTwo = [starterEdited, second]"
    "isEditingText editingFirstOfTwo" "selectedTextId editingFirstOfTwo = str ''1''"
    by (simp_all add: editingFirstOfTwo_eq)
  have f: "findById secondId [starterEdited, second] = Some second"
    by (simp add: findById_def starterEdited_fields second_fields secondId_neq)
  have b: "handlePanStateChange BEGAN secondId editingFirstOfTwo =
      editingFirstOfTwo\<lparr>dragStart := (dragStart editingFirstOfTwo)(secondId \<mapsto> (10, 600))\<rparr>"
    by (simp add: handlePanStateChange_def a f second_fields)
  have "isEditingText (handlePanStateChange BEGAN secondId editingFirstOfTwo)"
    by (simp add: b a)
  then have c: "panFrames [(10, 5), (40, 40)] secondId
        (handlePanStateChange BEGAN secondId editingFirstOfTwo) =
      handlePanStateChange BEGAN secondId editingFirstOfTwo"
    by (rule panFrames_editing)
  have e: "textElements (handlePanStateChange BEGAN secondId editingFirstOfTwo) =
      [starterEdited, second]"
    "dragStart (handlePanStateChange BEGAN secondId editingFirstOfTwo) secondId = Some (10, 600)"
    by (simp_all add: b a)
  have d: "second \<noteq> second\<lparr>el_x := 10 + 40, el_y := 600 + 40\<rparr>"
  proof
    assume "second = second\<lparr>el_x := 10 + 40, el_y := 600 + 40\<rparr>"
    then have "el_x second = el_x (second\<lparr>el_x := 10 + 40, el_y := 600 + 40\<rparr>)" by simp
    then show False by (simp add: second_fields)
  qed
  show ?thesis
    using d by (simp add: c e a f second_fields secondId_neq)
qed

subsection \<open>Pinch\<close>

lemma clamp_bounds: "(0.3::real) \<le> max 0.3 (min 5.0 v) \<and> max 0.3 (min 5.0 v) \<le> 5.0"
  by (simp add: max_def min_def)

lemma clamp_Num:
  "Math_max (Num 0.3) (Math_min (Num 5.0) (times_js (Num a) (Num b))) =
     Num (max 0.3 (min 5.0 (a * b)))"
  by simp

lemma clamp_not_NaN:
  assumes "v \<noteq> NaN"
  shows "scaleInRange (Math_max (Num 0.3) (Math_min (Num 5.0) v))"
proof (cases v)
  case (Num x)
  have "Math_max (Num 0.3) (Math_min (Num 5.0) (Num x)) = Num (max 0.3 (min 5.0 x))"
    by simp
  then show ?thesis
    unfolding Num using clamp_bounds [of x] by (simp only: scaleInRange.simps)
next
  case PosInfinity
  have "Math_max (Num 0.3) (Math_min (Num 5.0) PosInfinity) = Num (max 0.3 5.0)" by simp
  moreover have "(0.3::real) \<le> max 0.3 5.0 \<and> max 0.3 5.0 \<le> (5.0::real)" by simp
  ultimately show ?thesis unfolding PosInfinity by (simp only: scaleInRange.simps)
next
  case NegInfinity
  have "Math_max (Num 0.3) (Math_min (Num 5.0) NegInfinity) = Num 0.3" by simp
  moreover have "(0.3::real) \<le> 0.3 \<and> 0.3 \<le> (5.0::real)" by simp
  ultimately show ?thesis unfolding NegInfinity by (simp only: scaleInRange.simps)
next
  case NaN
  then show ?thesis using assms by simp
qed

lemma clamp_NaN: "Math_max (Num 0.3) (Math_min (Num 5.0) (times_js s NaN)) = NaN"
  by (cases s) simp_all

lemma times_js_not_NaN:
  assumes "scaleInRange s" and "k \<noteq> NaN"
  shows "times_js s k \<noteq> NaN"
proof -
  from assms(1) obtain a where s: "s = Num a" and a: "0 < a"
    by (cases s) auto
  show ?thesis using assms(2) a unfolding s by (cases k) simp_all
qed

lemma clamp_inRange:
  assumes "scaleInRange s" and "k \<noteq> NaN"
  shows "scaleInRange (Math_max (Num 0.3) (Math_min (Num 5.0) (times_js s k)))"
  by (rule clamp_not_NaN [OF times_js_not_NaN [OF assms]])

lemma handlePinchGesture_active:
  assumes "\<not> isEditingText r" and "findById i (textElements r) = Some e"
  shows "textElements (handlePinchGesture ACTIVE k i r) =
         map (\<lambda>el. if el_id el = i
                    then el\<lparr>scale := Math_max (Num 0.3) (Math_min (Num 5.0) (times_js (scale e) k))\<rparr>
                    else el)
           (textElements r)"
  using assms by (simp add: handlePinchGesture_def updateTextElement_def)

lemma handlePinchGesture_idle:
  assumes "st \<noteq> ACTIVE \<or> isEditingText r \<or> findById i (textElements r) = None"
  shows "handlePinchGesture st k i r = r"
  using assms by (auto simp: handlePinchGesture_def split: option.splits)

lemma findById_in_set: "findById i els = Some e \<Longrightarrow> e \<in> set els"
  unfolding findById_def by (auto simp: find_Some_iff)

lemma handlePinchGesture_inRange:
  assumes "scalesInRange r" and "k \<noteq> NaN"
  shows "scalesInRange (handlePinchGesture st k i r)"
proof (cases "st \<noteq> ACTIVE \<or> isEditingText r \<or> findById i (textElements r) = None")
  case True
  then show ?thesis using assms(1) by (simp add: handlePinchGesture_idle)
next
  case False
  then obtain e where e: "findById i (textElements r) = Some e" and ne: "\<not> isEditingText r"
    and st: "st = ACTIVE"
    by auto
  have "scaleInRange (scale e)"
    using assms(1) findById_in_set [OF e] unfolding scalesInRange_def by blast
  then have new: "scaleInRange (Math_max (Num 0.3) (Math_min (Num 5.0) (times_js (scale e) k)))"
    using assms(2) by (rule clamp_inRange)
  show ?thesis
    unfolding scalesInRange_def
  proof
    fix el'
    assume "el' \<in> set (textElements (handlePinchGesture st k i r))"
    then have "el' \<in> (\<lambda>el. if el_id el = i
        then el\<lparr>scale := Math_max (Num 0.3) (Math_min (Num 5.0) (times_js (scale e) k))\<rparr>
        else el) ` set (textElements r)"
      unfolding st handlePinchGesture_active [OF ne e] by (simp only: set_map)
    then obtain el where el: "el \<in> set (textElements r)"
      and el': "el' = (if el_id el = i
        then el\<lparr>scale := Math_max (Num 0.3) (Math_min (Num 5.0) (times_js (scale e) k))\<rparr>
        else el)"
      by (rule imageE)
    show "scaleInRange (scale el')"
    proof (cases "el_id el = i")
      case True
      then have "el' = el\<lparr>scale := Math_max (Num 0.3) (Math_min (Num 5.0) (times_js (scale e) k))\<rparr>"
        using el' by metis
      then have "scale el' = Math_max (Num 0.3) (Math_min (Num 5.0) (times_js (scale e) k))"
        by simp
      then show ?thesis using new by (simp only:)
    next
      case False
      then have "el' = el" using el' by metis
      then show ?thesis using assms(1) el unfolding scalesInRange_def by blast
    qed
  qed
qed

lemma pinchFrames_inRange:
  "scalesInRange r \<Longrightarrow> NaN \<notin> snd ` set frames \<Longrightarrow> scalesInRange (pinchFrames frames i r)"
  unfolding pinchFrames_def
proof (induction frames arbitrary: r)
  case Nil
  then show ?case by simp
next
  case (Cons fr frames)
  from Cons.prems(2) have k: "snd fr \<noteq> NaN" and rest: "NaN \<notin> snd ` set frames"
    by auto
  have "scalesInRange (handlePinchGesture (fst fr) (snd fr) i r)"
    using Cons.prems(1) k by (rule handlePinchGesture_inRange)
  then show ?case using Cons.IH [OF _ rest] by simp
qed

lemma scalesInRange_initialState: "scalesInRange (initialState w)"
  by (simp add: scalesInRange_def initialState_def newTextElement_def)

lemma pinch_example:
  "textElements (handlePinchGesture ACTIVE (Num 100) (str ''1'') (initialState phone)) =
     [starter\<lparr>scale := Num 5\<rparr>]"
  "textElements
     (pinchFrames [(ACTIVE, Num 100), (ACTIVE, Num (1 / 1000)), (ACTIVE, PosInfinity)] (str ''1'')
        (initialState phone)) =
     [starter\<lparr>scale := Num 5\<rparr>]"
  "textElements
     (pinchFrames [(ACTIVE, Num 100), (ACTIVE, Num (1 / 1000))] (str ''1'')
        (initialState phone)) =
     [starter\<lparr>scale := Num (3 / 10)\<rparr>]"
  by (simp_all add: pinchFrames_def handlePinchGesture_def initialState_phone findById_def
      starter_fields updateTextElement_def)

lemma pinch_NaN_example:
  "textElements (handlePinchGesture ACTIVE NaN (str ''1'') (initialState phone)) =
     [starter\<lparr>scale := NaN\<rparr>]"
  "textElements
     (pinchFrames [(ACTIVE, NaN), (ACTIVE, Num 1)] (str ''1'') (initialState phone)) =
     [starter\<lparr>scale := NaN\<rparr>]"
  by (simp_all add: pinchFrames_def handlePinchGesture_def initialState_phone findById_def
      starter_fields updateTextElement_def)

text \<open>Every handler keeps the scales of the store within the range.\<close>

lemma scalesInRange_updateTextElement:
  assumes "scalesInRange p" and "\<And>el. scale (f el) = scale el"
  shows "scalesInRange (updateTextElement i f p)"
  using assms by (auto simp: scalesInRange_def updateTextElement_def)

lemma scalesInRange_fold_commitEntry:
  "scalesInRange p \<Longrightarrow> scalesInRange (fold (commitEntry fs) buf p)"
proof (induction buf arbitrary: p)
  case Nil
  then show ?case by simp
next
  case (Cons entry buf)
  have "scalesInRange (commitEntry fs entry p)"
    unfolding commitEntry_def using Cons.prems
    by (rule scalesInRange_updateTextElement) simp
  then show ?case using Cons.IH by simp
qed

lemma scalesInRange_stopEditingText:
  "scalesInRange p \<Longrightarrow> scalesInRange (stopEditingText r p)"
  using scalesInRange_fold_commitEntry [of p "currentFontSize r" "localTextContent r"]
  by (simp add: stopEditingText_def scalesInRange_def)

lemma scalesInRange_removeIfEmpty:
  "scalesInRange r \<Longrightarrow> scalesInRange (removeIfEmpty r)"
  by (auto simp: removeIfEmpty_def scalesInRange_def Let_def split: option.splits)

lemma scale_relocate: "scale (relocate w e) = scale e"
  by (simp add: relocate_def Let_def)

lemma assignFirst_all:
  assumes "\<forall>el \<in> set els. Q el" and "\<And>el. Q el \<Longrightarrow> Q (f el)"
  shows "\<forall>el \<in> set (assignFirst P f els). Q el"
  using assms(1)
proof (induction els)
  case Nil
  then show ?case by simp
next
  case (Cons a els)
  then have a: "Q a" and rest: "\<forall>el \<in> set els. Q el" by simp_all
  show ?case
  proof (cases "P a")
    case True
    then show ?thesis using assms(2) [OF a] rest by simp
  next
    case False
    then show ?thesis using a Cons.IH [OF rest] by simp
  qed
qed

lemma textElements_moveTextIntoViewForEditing:
  "textElements (moveTextIntoViewForEditing w i r p) =
     (case findById i (textElements r) of
        None \<Rightarrow> textElements p
      | Some element \<Rightarrow> assignFirst (\<lambda>el. el_id el = i) (relocate w) (textElements p))"
  by (cases "findById i (textElements r)") (simp_all add: moveTextIntoViewForEditing_def)

lemma textElements_startEditingText:
  "textElements (startEditingText w i r p) =
     (case findById i (textElements r) of
        None \<Rightarrow> textElements p
      | Some element \<Rightarrow> assignFirst (\<lambda>el. el_id el = i) (relocate w) (textElements p))"
  by (cases "findById i (textElements r)")
    (simp_all add: startEditingText_def Let_def textElements_moveTextIntoViewForEditing)

lemma scalesInRange_startEditingText:
  assumes "scalesInRange p"
  shows "scalesInRange (startEditingText w i r p)"
proof (cases "findById i (textElements r)")
  case None
  then have "textElements (startEditingText w i r p) = textElements p"
    by (simp add: textElements_startEditingText)
  then show ?thesis using assms by (simp only: scalesInRange_def)
next
  case (Some e)
  then have eq: "textElements (startEditingText w i r p) =
      assignFirst (\<lambda>el. el_id el = i) (relocate w) (textElements p)"
    by (simp add: textElements_startEditingText)
  have "\<forall>el \<in> set (textElements p). scaleInRange (scale el)"
    using assms by (simp only: scalesInRange_def)
  then have "\<forall>el \<in> set (assignFirst (\<lambda>el. el_id el = i) (relocate w) (textElements p)).
      scaleInRange (scale el)"
    by (rule assignFirst_all) (simp only: scale_relocate)
  then show ?thesis by (simp only: scalesInRange_def eq)
qed

lemma scalesInRange_append_new:
  "scalesInRange r \<Longrightarrow>
   scalesInRange (r\<lparr>textElements := textElements r @ [newTextElement n px py], selectedTextId := n\<rparr>)"
  by (auto simp: scalesInRange_def newTextElement_def)

lemma scalesInRange_handleCanvasTap:
  assumes "scalesInRange r"
  shows "scalesInRange (handleCanvasTap w n px py r)"
proof (cases "isEditingText r")
  case True
  then have "handleCanvasTap w n px py r = stopEditingText r (removeIfEmpty r)"
    by (simp add: handleCanvasTap_def)
  then show ?thesis
    using scalesInRange_stopEditingText [OF scalesInRange_removeIfEmpty [OF assms]] by simp
next
  case False
  show ?thesis
  proof (cases "findElementAtPosition r px py")
    case None
    then have "handleCanvasTap w n px py r =
        startEditingText w n r
          (r\<lparr>textElements := textElements r @ [newTextElement n px py], selectedTextId := n\<rparr>)"
      using False by (simp add: handleCanvasTap_def)
    then show ?thesis
      using scalesInRange_startEditingText [OF scalesInRange_append_new [OF assms]] by simp
  next
    case (Some e)
    then have eq: "handleCanvasTap w n px py r =
        startEditingText w (el_id e) r (r\<lparr>selectedTextId := el_id e\<rparr>)"
      using False by (simp add: handleCanvasTap_def)
    have "scalesInRange (r\<lparr>selectedTextId := el_id e\<rparr>)"
      using assms by (simp add: scalesInRange_def)
    then show ?thesis
      unfolding eq by (rule scalesInRange_startEditingText)
  qed
qed

lemma scalesInRange_createNewTextElement:
  "scalesInRange r \<Longrightarrow> scalesInRange (createNewTextElement w n r)"
  unfolding createNewTextElement_def
  by (intro scalesInRange_startEditingText scalesInRange_append_new)

lemma scalesInRange_deleteTextElement:
  "scalesInRange r \<Longrightarrow> scalesInRange (deleteTextElement i r)"
  by (auto simp: deleteTextElement_def scalesInRange_def Let_def)

lemma scalesInRange_handlePanGesture:
  "scalesInRange r \<Longrightarrow> scalesInRange (handlePanGesture st tx ty i r)"
  by (auto simp: handlePanGesture_def Let_def intro: scalesInRange_updateTextElement
      split: option.splits)

lemma scalesInRange_pressBackgroundControl:
  "scalesInRange r \<Longrightarrow> scalesInRange (pressBackgroundControl r)"
  by (auto simp: pressBackgroundControl_def intro: scalesInRange_updateTextElement
      split: option.splits)

lemma scalesInRange_others:
  "scalesInRange r \<Longrightarrow> scalesInRange (handlePanStateChange st i r)"
  "scalesInRange r \<Longrightarrow> scalesInRange (handleTextInputChange i t r)"
  "scalesInRange r \<Longrightarrow> scalesInRange (handleSliderGesture ty r)"
  by (auto simp: handlePanStateChange_def handleTextInputChange_def handleSliderGesture_def
      scalesInRange_def Let_def split: option.splits)

lemma pinchFrames_snoc:
  "pinchFrames (frames @ [fr]) i r = handlePinchGesture (fst fr) (snd fr) i (pinchFrames frames i r)"
  by (simp add: pinchFrames_def)

text \<open>
  C2, as the code has it. An active pinch frame on an existing element, while no element
  is being edited, sets the scale of that element to the clamp to [0.3, 5.0] of the scale
  it had times the factor of the frame; on finite numbers that is
  \<open>max 0.3 (min 5.0 (a * b))\<close>, and for a scale in the range and any factor that is a
  number, an infinity included, the new scale is a number in the range. While an element is
  being edited a pinch frame on any element changes nothing. A sequence of frames is
  handled frame by frame, each on the state the previous one left. Hence a store whose
  scales all lie in [0.3, 5.0] (every element is created with scale 1, and no other handler
  changes a scale) keeps that property over any sequence of pinch frames, of any state,
  whose factors are not NaN.
\<close>

theorem pinch_scale_clamped:
  "(\<not> isEditingText r \<and> findById i (textElements r) = Some e \<longrightarrow>
      textElements (handlePinchGesture ACTIVE k i r) =
        map (\<lambda>el. if el_id el = i
                   then el\<lparr>scale :=
                          Math_max (Num 0.3) (Math_min (Num 5.0) (times_js (scale e) k))\<rparr>
                   else el)
          (textElements r)) \<and>
   Math_max (Num 0.3) (Math_min (Num 5.0) (times_js (Num a) (Num b))) =
     Num (max 0.3 (min 5.0 (a * b))) \<and>
   (scaleInRange s \<and> k \<noteq> NaN \<longrightarrow>
      scaleInRange (Math_max (Num 0.3) (Math_min (Num 5.0) (times_js s k)))) \<and>
   (isEditingText r \<longrightarrow> handlePinchGesture st k i r = r) \<and>
   (scalesInRange r \<and> NaN \<notin> snd ` set frames \<longrightarrow> scalesInRange (pinchFrames frames i r)) \<and>
   pinchFrames (frames @ [(st, k)]) i r = handlePinchGesture st k i (pinchFrames frames i r)"
proof (intro conjI impI)
  assume "\<not> isEditingText r \<and> findById i (textElements r) = Some e"
  then have ne: "\<not> isEditingText r" and e: "findById i (textElements r) = Some e" by simp_all
  show "textElements (handlePinchGesture ACTIVE k i r) =
        map (\<lambda>el. if el_id el = i
                   then el\<lparr>scale :=
                          Math_max (Num 0.3) (Math_min (Num 5.0) (times_js (scale e) k))\<rparr>
                   else el)
          (textElements r)"
    by (rule handlePinchGesture_active [OF ne e])
next
  show "Math_max (Num 0.3) (Math_min (Num 5.0) (times_js (Num a) (Num b))) =
     Num (max 0.3 (min 5.0 (a * b)))"
    by (rule clamp_Num)
next
  assume "scaleInRange s \<and> k \<noteq> NaN"
  then have "scaleInRange s" and "k \<noteq> NaN" by simp_all
  then show "scaleInRange (Math_max (Num 0.3) (Math_min (Num 5.0) (times_js s k)))"
    by (rule clamp_inRange)
next
  assume "isEditingText r"
  then show "handlePinchGesture st k i r = r" by (simp add: handlePinchGesture_idle)
next
  assume "scalesInRange r \<and> NaN \<notin> snd ` set frames"
  then have "scalesInRange r" and "NaN \<notin> snd ` set frames" by simp_all
  then show "scalesInRange (pinchFrames frames i r)" by (rule pinchFrames_inRange)
next
  show "pinchFrames (frames @ [(st, k)]) i r = handlePinchGesture st k i (pinchFrames frames i r)"
    by (simp add: pinchFrames_def)
qed

theorem pinch_scale_clamped_witness:
  "\<not> isEditingText (initialState phone) \<and>
   findById (str ''1'') (textElements (initialState phone)) = Some starter \<and>
   scale starter = Num 1 \<and>
   textElements (handlePinchGesture ACTIVE (Num 100) (str ''1'') (initialState phone)) =
     [starter\<lparr>scale := Num 5\<rparr>] \<and>
   scaleInRange (Num 1) \<and> Num 100 \<noteq> NaN \<and>
   scaleInRange (Math_max (Num 0.3) (Math_min (Num 5.0) (times_js (Num 1) (Num 100)))) \<and>
   isEditingText editingFirstOfTwo \<and>
   handlePinchGesture ACTIVE (Num 100) secondId editingFirstOfTwo = editingFirstOfTwo \<and>
   scalesInRange (initialState phone) \<and>
   NaN \<notin> snd ` set [(ACTIVE, Num 100), (ACTIVE, Num (1 / 1000)), (ACTIVE, PosInfinity)] \<and>
   scalesInRange
     (pinchFrames [(ACTIVE, Num 100), (ACTIVE, Num (1 / 1000)), (ACTIVE, PosInfinity)]
        (str ''1'') (initialState phone)) \<and>
   textElements
     (pinchFrames [(ACTIVE, Num 100), (ACTIVE, Num (1 / 1000)), (ACTIVE, PosInfinity)]
        (str ''1'') (initialState phone)) =
     [starter\<lparr>scale := Num 5\<rparr>]"
proof -
  have a: "\<not> isEditingText (initialState phone)" by (simp add: initialState_phone)
  have s: "scalesInRange (initialState phone)" by (rule scalesInRange_initialState)
  have n: "NaN \<notin> snd ` set [(ACTIVE, Num 100), (ACTIVE, Num (1 / 1000)), (ACTIVE, PosInfinity)]"
    by simp
  have one: "scaleInRange (Num 1)" "Num 100 \<noteq> NaN" by simp_all
  have ed: "isEditingText editingFirstOfTwo" by (simp add: editingFirstOfTwo_eq)
  note t1 = pinch_scale_clamped [where r = "initialState phone" and i = "str ''1''"
      and e = starter and k = "Num 100" and s = "Num 1"
      and frames = "[(ACTIVE, Num 100), (ACTIVE, Num (1 / 1000)), (ACTIVE, PosInfinity)]"]
  note t2 = pinch_scale_clamped [where r = editingFirstOfTwo and i = secondId
      and k = "Num 100" and st = ACTIVE]
  have c1: "scaleInRange (Math_max (Num 0.3) (Math_min (Num 5.0) (times_js (Num 1) (Num 100))))"
    using t1 one by blast
  have c2: "scalesInRange
     (pinchFrames [(ACTIVE, Num 100), (ACTIVE, Num (1 / 1000)), (ACTIVE, PosInfinity)]
        (str ''1'') (initialState phone))"
    using t1 s n by blast
  have c3: "handlePinchGesture ACTIVE (Num 100) secondId editingFirstOfTwo = editingFirstOfTwo"
    using t2 ed by blast
  show ?thesis
    using a s n one ed c1 c2 c3 findById_starter pinch_example(1,2) starter_fields(4)
    by blast
qed

text \<open>
  C2, as stated, fails twice. It speaks of every active frame: with the starter element
  being edited and the second element displayed with scale 1, an active frame with factor
  2 on the second element leaves its scale at 1. It speaks of arbitrary factors: a frame
  whose factor is NaN stores NaN as the scale, which is outside [0.3, 5.0], and the next
  frame keeps it.
\<close>

theorem pinch_claim_counterexample:
  "isEditingText editingFirstOfTwo \<and>
   selectedTextId editingFirstOfTwo = str ''1'' \<and>
   str ''1'' \<noteq> secondId \<and>
   findById secondId (textElements editingFirstOfTwo) = Some second \<and>
   scale second = Num 1 \<and>
   Math_max (Num 0.3) (Math_min (Num 5.0) (times_js (Num 1) (Num 2))) = Num 2 \<and>
   findById secondId (textElements (handlePinchGesture ACTIVE (Num 2) secondId editingFirstOfTwo)) =
     Some second \<and>
   Num 1 \<noteq> Num 2 \<and>
   textElements (handlePinchGesture ACTIVE NaN (str ''1'') (initialState phone)) =
     [starter\<lparr>scale := NaN\<rparr>] \<and>
   textElements
     (pinchFrames [(ACTIVE, NaN), (ACTIVE, Num 1)] (str ''1'') (initialState phone)) =
     [starter\<lparr>scale := NaN\<rparr>] \<and>
   \<not> scaleInRange NaN"
proof -
  have a: "textElements editingFirstOfTwo = [starterEdited, second]"
    "isEditingText editingFirstOfTwo" "selectedTextId editingFirstOfTwo = str ''1''"
    by (simp_all add: editingFirstOfTwo_eq)
  have f: "findById secondId [starterEdited, second] = Some second"
    by (simp add: findById_def starterEdited_fields second_fields secondId_neq)
  have g: "handlePinchGesture ACTIVE (Num 2) secondId editingFirstOfTwo = editingFirstOfTwo"
    using a(2) by (simp add: handlePinchGesture_idle)
  have h: "Math_max (Num 0.3) (Math_min (Num 5.0) (times_js (Num 1) (Num 2))) = Num 2"
    by simp
  show ?thesis
    by (simp add: a f g h second_fields secondId_neq pinch_NaN_example)
qed

subsection \<open>Explicit deletion\<close>

lemma deleteTextElement_single:
  "length (textElements r) = 1 \<Longrightarrow> deleteTextElement i r = r"
  by (simp add: deleteTextElement_def)

lemma filter_remove1_id:
  "distinct (map el_id els) \<Longrightarrow> e \<in> set els \<Longrightarrow>
   filter (\<lambda>el. el_id el \<noteq> el_id e) els = remove1 e els"
proof (induction els)
  case Nil
  then show ?case by simp
next
  case (Cons a els)
  show ?case
  proof (cases "a = e")
    case True
    have "\<forall>el \<in> set els. el_id el \<noteq> el_id e"
      using Cons.prems(1) True by (auto simp: image_iff)
    then have "filter (\<lambda>el. el_id el \<noteq> el_id e) els = els"
      by (simp add: filter_id_conv)
    with True show ?thesis by simp
  next
    case False
    with Cons.prems have "e \<in> set els" by simp
    moreover have "el_id a \<noteq> el_id e"
      using Cons.prems(1) \<open>e \<in> set els\<close> by (auto simp: image_iff)
    ultimately show ?thesis using Cons False by simp
  qed
qed

lemma deleteTextElement_many:
  "length (textElements r) > 1 \<Longrightarrow>
   textElements (deleteTextElement i r) = filter (\<lambda>el. el_id el \<noteq> i) (textElements r)"
  by (simp add: deleteTextElement_def Let_def)

text \<open>
  C8. The long-press delete. On a store of exactly one element it changes nothing at all.
  On a store of more than one element it removes the elements with the given id and keeps
  the others, unchanged and in order; with unique ids that is the removal of exactly the
  one element.
\<close>

theorem delete_keeps_last_element:
  "(length (textElements r) = 1 \<longrightarrow> deleteTextElement i r = r) \<and>
   (length (textElements r) > 1 \<longrightarrow>
      textElements (deleteTextElement i r) = filter (\<lambda>el. el_id el \<noteq> i) (textElements r)) \<and>
   (length (textElements r) > 1 \<and> distinct (map el_id (textElements r)) \<and>
    e \<in> set (textElements r) \<longrightarrow>
      textElements (deleteTextElement (el_id e) r) = remove1 e (textElements r))"
  by (simp add: deleteTextElement_single deleteTextElement_many filter_remove1_id)

theorem delete_keeps_last_element_witness:
  "length (textElements (initialState phone)) = 1 \<and>
   deleteTextElement (str ''1'') (initialState phone) = initialState phone \<and>
   length (textElements twoElements) > 1 \<and> distinct (map el_id (textElements twoElements)) \<and>
   starter \<in> set (textElements twoElements) \<and>
   textElements (deleteTextElement (el_id starter) twoElements) = [second]"
proof -
  have a: "textElements (initialState phone) = [starter]" by (simp add: initialState_phone)
  have b: "textElements twoElements = [starter, second]" by (simp add: twoElements_eq)
  show ?thesis
    using delete_keeps_last_element [of "initialState phone" "str ''1''" starter]
      delete_keeps_last_element [of twoElements "str ''1''" starter]
    by (simp add: a b starter_fields second_fields secondId_neq)
qed

subsection \<open>Gestures while editing\<close>

text \<open>
  C9. While the editing flag is set, no pan frame, pan state change or pinch frame changes
  the store: every element keeps its position and its scale.
\<close>

theorem gestures_ignored_while_editing:
  assumes "isEditingText r"
  shows "textElements (handlePanGesture st tx ty i r) = textElements r \<and>
         textElements (handlePinchGesture st k i r) = textElements r \<and>
         textElements (handlePanStateChange st i r) = textElements r"
  using assms
  by (simp add: handlePanGesture_def handlePinchGesture_def handlePanStateChange_def Let_def
      split: option.splits)

theorem gestures_ignored_while_editing_witness:
  "isEditingText editingStarter \<and>
   textElements (handlePanStateChange BEGAN (str ''1'') editingStarter) = [starterEdited] \<and>
   textElements (handlePanGesture ACTIVE 40 (- 30) (str ''1'')
      (handlePanStateChange BEGAN (str ''1'') editingStarter)) = [starterEdited] \<and>
   textElements (handlePinchGesture ACTIVE (Num 2) (str ''1'') editingStarter) = [starterEdited]"
proof -
  have a: "isEditingText editingStarter" "textElements editingStarter = [starterEdited]"
    by (simp_all add: editingStarter_eq)
  have b: "isEditingText (handlePanStateChange BEGAN (str ''1'') editingStarter)"
    by (simp add: handlePanStateChange_def editingStarter_eq findById_def starterEdited_fields)
  show ?thesis
    using gestures_ignored_while_editing [OF a(1), of BEGAN 0 0 "str ''1''" "Num 2"]
      gestures_ignored_while_editing [OF a(1), of ACTIVE 0 0 "str ''1''" "Num 2"]
      gestures_ignored_while_editing [OF b, of ACTIVE 40 "- 30" "str ''1''" "Num 2"]
    by (simp add: a)
qed

subsection \<open>Validation on submission\<close>

lemma trim_empty_iff: "trim s = [] \<longleftrightarrow> (\<forall>c \<in> set s. isWhiteSpace c)"
proof
  assume "trim s = []"
  then have "dropWhile isWhiteSpace (rev (dropWhile isWhiteSpace s)) = []"
    by (simp add: trim_def)
  then have all: "\<forall>c \<in> set (dropWhile isWhiteSpace s). isWhiteSpace c"
    by (simp add: dropWhile_eq_Nil_conv)
  have "dropWhile isWhiteSpace s = []"
  proof (rule ccontr)
    assume ne: "dropWhile isWhiteSpace s \<noteq> []"
    then have "\<not> isWhiteSpace (hd (dropWhile isWhiteSpace s))" by (rule hd_dropWhile)
    moreover have "hd (dropWhile isWhiteSpace s) \<in> set (dropWhile isWhiteSpace s)"
      using ne by (rule hd_in_set)
    ultimately show False using all by blast
  qed
  then show "\<forall>c \<in> set s. isWhiteSpace c" by (simp add: dropWhile_eq_Nil_conv)
next
  assume "\<forall>c \<in> set s. isWhiteSpace c"
  then have "dropWhile isWhiteSpace s = []" by (simp add: dropWhile_eq_Nil_conv)
  then show "trim s = []" unfolding trim_def by (simp only: rev.simps dropWhile.simps)
qed

lemma set_hd_join: "set t \<subseteq> set (join sep (t # ts))"
  by (cases ts) simp_all

lemma join_nonblank:
  assumes "ts \<noteq> []" and "\<forall>t \<in> set ts. trim t \<noteq> []"
  shows "trim (join sep ts) \<noteq> []"
proof -
  from assms(1) obtain t ts' where ts: "ts = t # ts'" by (cases ts) auto
  with assms(2) have "trim t \<noteq> []" by simp
  then obtain c where c: "c \<in> set t" "\<not> isWhiteSpace c"
    by (auto simp: trim_empty_iff)
  have "c \<in> set (join sep ts)" using c(1) set_hd_join [of t sep ts'] ts by blast
  with c(2) show ?thesis by (auto simp: trim_empty_iff)
qed

lemma allText_eq: "allText r = join (str '' '') (visibleTexts r)"
  by (simp add: allText_def currentElements_def visibleTexts_def filter_map comp_def)

lemma allText_blank_iff:
  "trim (allText r) = [] \<longleftrightarrow> (\<forall>el \<in> set (textElements r). trim (getDisplayText r el) = [])"
proof (cases "visibleTexts r = []")
  case True
  then have "allText r = []" by (simp add: allText_eq)
  moreover have "\<forall>el \<in> set (textElements r). trim (getDisplayText r el) = []"
    using True by (auto simp: visibleTexts_def filter_empty_conv)
  ultimately show ?thesis by (simp add: trim_def)
next
  case False
  have "\<forall>t \<in> set (visibleTexts r). trim t \<noteq> []" by (simp add: visibleTexts_def)
  then have "trim (allText r) \<noteq> []"
    unfolding allText_eq using False by (intro join_nonblank)
  moreover have "\<not> (\<forall>el \<in> set (textElements r). trim (getDisplayText r el) = [])"
    using False by (auto simp: visibleTexts_def filter_empty_conv)
  ultimately show ?thesis by simp
qed

lemma allText_long_nonblank:
  assumes "length (allText r) > maxLength"
  shows "trim (allText r) \<noteq> []"
proof
  assume "trim (allText r) = []"
  then have "\<forall>el \<in> set (textElements r). trim (getDisplayText r el) = []"
    by (simp add: allText_blank_iff)
  then have "visibleTexts r = []" by (auto simp: visibleTexts_def filter_empty_conv)
  then have "allText r = []" by (simp add: allText_eq)
  with assms show False by simp
qed

lemma getDisplayText_no_buffer:
  "localTextContent r = [] \<Longrightarrow> getDisplayText r el = content el"
  by (simp add: getDisplayText_def)

lemma exit_with_text:
  assumes "t \<noteq> []" and "trim t \<noteq> []"
  shows "handleCanvasTap phone n px py (handleTextInputChange (str ''1'') t editingStarter) =
     \<lparr>textElements = [starterEdited\<lparr>content := t, fontSize := 24\<rparr>],
      selectedTextId = str ''1'', isEditingText = False, isPosting = False,
      currentFontSize = 24, localTextContent = [],
      canvasBackgroundColor = str ''#F8F8FF'',
      backgroundGradient = [], showControlBar = False, screenDarkened = False,
      dragStart = Map.empty\<rparr>"
  using assms
  by (simp add: editingStarter_eq handleTextInputChange_def handleCanvasTap_def
      removeIfEmpty_def getCurrentTextElement_def findById_def starterEdited_fields
      getDisplayText_def stopEditingText_def commitEntry_def updateTextElement_def)

lemma trim_hi_padded: "trim (str ''hi '') = str ''hi''"
  by (simp add: trim_def str_def isWhiteSpace_def)

lemma hi_padded_neq: "str ''hi '' \<noteq> []" "str ''hi'' \<noteq> []" "str ''hi '' \<noteq> str ''hi''"
  "length (str ''hi '') = 3"
  by (simp_all add: str_def)

lemma paddedHi_eq:
  "paddedHi =
     \<lparr>textElements = [starterEdited\<lparr>content := str ''hi '', fontSize := 24\<rparr>],
      selectedTextId = str ''1'', isEditingText = False, isPosting = False,
      currentFontSize = 24, localTextContent = [],
      canvasBackgroundColor = str ''#F8F8FF'',
      backgroundGradient = [], showControlBar = False, screenDarkened = False,
      dragStart = Map.empty\<rparr>"
  unfolding paddedHi_def
  by (rule exit_with_text) (simp_all add: trim_hi_padded hi_padded_neq)

lemma allText_paddedHi: "allText paddedHi = str ''hi ''"
  by (simp add: allText_def currentElements_def paddedHi_eq getDisplayText_def trim_hi_padded
      hi_padded_neq)

lemma claimedAggregate_paddedHi: "claimedAggregate paddedHi = str ''hi''"
  by (simp add: claimedAggregate_def paddedHi_eq trim_hi_padded hi_padded_neq)

lemma not_ws_a: "\<not> isWhiteSpace (of_char CHR ''a'')"
  by (simp add: isWhiteSpace_def)

lemma ws_space: "isWhiteSpace (of_char CHR '' '')"
  by (simp add: isWhiteSpace_def)

lemma trim_replicate_padded:
  assumes "\<not> isWhiteSpace a" and "isWhiteSpace b"
  shows "trim (replicate (Suc n) a @ [b]) = replicate (Suc n) a"
proof -
  have "dropWhile isWhiteSpace (replicate (Suc n) a @ [b]) = replicate (Suc n) a @ [b]"
    using assms(1) by simp
  moreover have "rev (replicate (Suc n) a @ [b]) = b # replicate (Suc n) a"
    by (simp only: rev_append rev_replicate rev.simps append.simps)
  moreover have "dropWhile isWhiteSpace (b # replicate (Suc n) a) = replicate (Suc n) a"
    using assms by simp
  moreover have "rev (replicate (Suc n) a) = replicate (Suc n) a"
    by (rule rev_replicate)
  ultimately show ?thesis by (simp only: trim_def)
qed

lemma longText_eq: "longText = replicate (Suc 499) (of_char CHR ''a'') @ [of_char CHR '' '']"
  by (simp add: longText_def str_def)

lemma trim_longText: "trim longText = replicate (Suc 499) (of_char CHR ''a'')"
  unfolding longText_eq by (rule trim_replicate_padded [OF not_ws_a ws_space])

lemma length_longText: "length longText = 501" "longText \<noteq> []"
  by (simp_all add: longText_eq)

lemma typedLong_eq:
  "typedLong =
     \<lparr>textElements = [starterEdited\<lparr>content := longText, fontSize := 24\<rparr>],
      selectedTextId = str ''1'', isEditingText = False, isPosting = False,
      currentFontSize = 24, localTextContent = [],
      canvasBackgroundColor = str ''#F8F8FF'',
      backgroundGradient = [], showControlBar = False, screenDarkened = False,
      dragStart = Map.empty\<rparr>"
  unfolding typedLong_def
  by (rule exit_with_text) (simp_all add: trim_longText length_longText)

lemma allText_typedLong: "allText typedLong = longText"
  by (simp add: allText_def currentElements_def typedLong_eq getDisplayText_def trim_longText)

lemma claimedAggregate_typedLong:
  "claimedAggregate typedLong = replicate (Suc 499) (of_char CHR ''a'')"
  by (simp add: claimedAggregate_def typedLong_eq trim_longText)

lemma allText_twoElements: "allText twoElements = str ''yo''"
  by (simp add: allText_def currentElements_def twoElements_eq getDisplayText_def trim_yo
      yo_nonempty starter_fields second_fields trim_Nil)

lemma allText_initialState: "allText (initialState w) = []"
  by (simp add: allText_def currentElements_def initialState_def getDisplayText_def
      newTextElement_def trim_Nil)

text \<open>
  C3, as the code has it. The aggregate text is the join, with single spaces, of the
  texts of the elements (what is in the buffer for the element, else its content; with an
  empty buffer, its content) that are non-empty after trimming, in the order of the list
  and not trimmed themselves. \<^verbatim>\<open>handlePost\<close> fails with \<open>EmptyContent\<close> exactly when the
  aggregate is empty after trimming, which is when every element is blank; it fails with
  \<open>TooLong\<close> exactly when the aggregate is longer than 500 code units; it reaches the
  network call, with the aggregate as \<^verbatim>\<open>text_content\<close>, exactly when neither holds, and a
  failure leaves the posting flag as it was.
\<close>

theorem handlePost_validation:
  "allText r =
     join (str '' '') (filter (\<lambda>t. trim t \<noteq> []) (map (getDisplayText r) (textElements r))) \<and>
   (localTextContent r = [] \<longrightarrow>
      allText r = join (str '' '') (filter (\<lambda>t. trim t \<noteq> []) (map content (textElements r)))) \<and>
   (fst (handlePost w r) = Inl EmptyContent \<longleftrightarrow> trim (allText r) = []) \<and>
   (trim (allText r) = [] \<longleftrightarrow>
      (\<forall>el \<in> set (textElements r). trim (getDisplayText r el) = [])) \<and>
   (fst (handlePost w r) = Inl TooLong \<longleftrightarrow> length (allText r) > 500) \<and>
   (fst (handlePost w r) = Inr (postData w r) \<longleftrightarrow>
      trim (allText r) \<noteq> [] \<and> length (allText r) \<le> 500) \<and>
   (\<forall>err. fst (handlePost w r) = Inl err \<longrightarrow>
      isPosting (snd (handlePost w r)) = isPosting r) \<and>
   text_content (postData w r) = allText r"
proof -
  have a: "allText r =
     join (str '' '') (filter (\<lambda>t. trim t \<noteq> []) (map (getDisplayText r) (textElements r)))"
    using allText_eq [of r] by (simp add: visibleTexts_def)
  have b: "localTextContent r = [] \<longrightarrow>
      allText r = join (str '' '') (filter (\<lambda>t. trim t \<noteq> []) (map content (textElements r)))"
  proof
    assume e: "localTextContent r = []"
    have "map (getDisplayText r) (textElements r) = map content (textElements r)"
      by (rule map_cong) (simp_all add: getDisplayText_no_buffer [OF e])
    with a show "allText r =
        join (str '' '') (filter (\<lambda>t. trim t \<noteq> []) (map content (textElements r)))"
      by simp
  qed
  have c: "fst (handlePost w r) = Inl EmptyContent \<longleftrightarrow> trim (allText r) = []"
    by (simp add: handlePost_def Let_def)
  have d: "fst (handlePost w r) = Inl TooLong \<longleftrightarrow> length (allText r) > 500"
    using allText_long_nonblank [of r] by (auto simp: handlePost_def Let_def maxLength_def)
  have e: "fst (handlePost w r) = Inr (postData w r) \<longleftrightarrow>
      trim (allText r) \<noteq> [] \<and> length (allText r) \<le> 500"
    by (auto simp: handlePost_def Let_def maxLength_def)
  have f: "\<forall>err. fst (handlePost w r) = Inl err \<longrightarrow>
      isPosting (snd (handlePost w r)) = isPosting r"
  proof -
    have "isPosting (fold commitContent buf p) = isPosting p" for buf p
      by (induction buf arbitrary: p) (simp_all add: commitContent_def updateTextElement_def)
    then show ?thesis by (auto simp: handlePost_def Let_def)
  qed
  have g: "text_content (postData w r) = allText r"
    by (simp add: postData_def Let_def)
  show ?thesis using a b c d e f g allText_blank_iff [of r] by blast
qed

theorem handlePost_validation_witness:
  "localTextContent twoElements = [] \<and>
   allText twoElements = str ''yo'' \<and>
   fst (handlePost phone twoElements) = Inr (postData phone twoElements) \<and>
   map (\<lambda>el. trim (getDisplayText (initialState phone) el))
     (textElements (initialState phone)) = [[]] \<and>
   fst (handlePost phone (initialState phone)) = Inl EmptyContent \<and>
   isPosting (snd (handlePost phone (initialState phone))) = isPosting (initialState phone) \<and>
   fst (handlePost phone typedLong) = Inl TooLong"
proof -
  have a: "length (str ''yo'') = 2" by (simp add: str_def)
  have b: "localTextContent twoElements = []" by (simp add: twoElements_eq)
  have c: "map (\<lambda>el. trim (getDisplayText (initialState phone) el))
     (textElements (initialState phone)) = [[]]"
    by (simp add: initialState_phone getDisplayText_def starter_fields trim_Nil)
  have "fst (handlePost phone twoElements) = Inr (postData phone twoElements) \<and>
     fst (handlePost phone (initialState phone)) = Inl EmptyContent \<and>
     isPosting (snd (handlePost phone (initialState phone))) = isPosting (initialState phone) \<and>
     fst (handlePost phone typedLong) = Inl TooLong"
    using handlePost_validation [of twoElements phone]
      handlePost_validation [of "initialState phone" phone]
      handlePost_validation [of typedLong phone]
    by (simp add: a allText_twoElements allText_initialState trim_yo yo_nonempty trim_Nil
        allText_typedLong length_longText)
  then show ?thesis
    using b c allText_twoElements by simp
qed

text \<open>
  C3, as stated, fails: the texts are joined untrimmed. After typing \<open>hi\<close> and a space
  the posted aggregate keeps the trailing space; after typing 500 letters and a space the
  post is refused as too long although the trimmed text has 500 code units.
\<close>

theorem aggregate_trimmed_counterexample:
  "fst (handlePost phone paddedHi) = Inr (postData phone paddedHi) \<and>
   text_content (postData phone paddedHi) = str ''hi '' \<and>
   claimedAggregate paddedHi = str ''hi'' \<and>
   text_content (postData phone paddedHi) \<noteq> claimedAggregate paddedHi \<and>
   fst (handlePost phone typedLong) = Inl TooLong \<and>
   claimedAggregate typedLong \<noteq> [] \<and>
   length (claimedAggregate typedLong) = 500"
proof -
  have "fst (handlePost phone paddedHi) = Inr (postData phone paddedHi)"
    by (simp add: handlePost_def Let_def allText_paddedHi trim_hi_padded hi_padded_neq
        maxLength_def)
  moreover have "text_content (postData phone paddedHi) = str ''hi ''"
    by (simp add: postData_def Let_def allText_paddedHi)
  moreover have "fst (handlePost phone typedLong) = Inl TooLong"
    by (simp add: handlePost_def Let_def allText_typedLong trim_longText length_longText
        maxLength_def)
  moreover have "length (claimedAggregate typedLong) = 500"
    by (simp add: claimedAggregate_typedLong)
  moreover have "claimedAggregate typedLong \<noteq> []"
    by (simp add: claimedAggregate_typedLong)
  ultimately show ?thesis
    by (simp add: claimedAggregate_paddedHi hi_padded_neq)
qed

subsection \<open>Hit testing\<close>

lemma findElementAtPosition_Some:
  "findElementAtPosition r px py = Some e \<longleftrightarrow>
     (\<exists>before after. textElements r = before @ e # after \<and> hitBox px py e \<and>
        (\<forall>el \<in> set before. \<not> hitBox px py el))"
proof
  assume "findElementAtPosition r px py = Some e"
  then obtain i where i: "i < length (textElements r)" "hitBox px py (textElements r ! i)"
    "e = textElements r ! i" "\<forall>j<i. \<not> hitBox px py (textElements r ! j)"
    unfolding findElementAtPosition_def find_Some_iff by blast
  have "textElements r = take i (textElements r) @ e # drop (Suc i) (textElements r)"
    using i(1,3) by (simp add: id_take_nth_drop)
  moreover have "\<forall>el \<in> set (take i (textElements r)). \<not> hitBox px py el"
    using i(1,4) by (auto simp: in_set_conv_nth)
  ultimately show "\<exists>before after. textElements r = before @ e # after \<and> hitBox px py e \<and>
        (\<forall>el \<in> set before. \<not> hitBox px py el)"
    using i(2,3) by blast
next
  assume "\<exists>before after. textElements r = before @ e # after \<and> hitBox px py e \<and>
        (\<forall>el \<in> set before. \<not> hitBox px py el)"
  then obtain before after where h: "textElements r = before @ e # after" "hitBox px py e"
    "\<forall>el \<in> set before. \<not> hitBox px py el"
    by blast
  have "find (hitBox px py) (before @ e # after) = Some e"
    using h(2,3) by (induction before) simp_all
  then show "findElementAtPosition r px py = Some e"
    by (simp add: findElementAtPosition_def h(1))
qed

lemma findElementAtPosition_None:
  "findElementAtPosition r px py = None \<longleftrightarrow> (\<forall>el \<in> set (textElements r). \<not> hitBox px py el)"
  by (auto simp: findElementAtPosition_def find_None_iff)

lemma hitBox_other:
  "el_id element \<noteq> str ''1'' \<Longrightarrow>
   hitBox px py element \<longleftrightarrow> \<bar>px - el_x element\<bar> \<le> 100 \<and> \<bar>py - el_y element\<bar> \<le> 25"
  by (auto simp: hitBox_def Let_def)

lemma hitBox_first:
  "el_id element = str ''1'' \<Longrightarrow>
   hitBox px py element \<longleftrightarrow>
     el_x element - 100 \<le> px \<and> px \<le> el_x element + 200 \<and>
     el_y element - 25 \<le> py \<and> py \<le> el_y element + 55"
  by (auto simp: hitBox_def Let_def)

lemma centredHitBox_other:
  "el_id element \<noteq> str ''1'' \<Longrightarrow> centredHitBox px py element = hitBox px py element"
  by (auto simp: hitBox_def centredHitBox_def Let_def)

text \<open>
  C4. The resolver returns the first element of the list whose box contains the point
  (\<open>findElementAtPosition_Some\<close>, \<open>findElementAtPosition_None\<close>), and the box of every
  element but the starter is the 200 by 50 box centred on its position (\<open>hitBox_other\<close>).
  The 300 by 80 box of the starter element is not centred: it keeps the offsets 100 and 25
  of the smaller box (\<open>hitBox_first\<close>). In the initial state of the 390 by 844 window a
  tap at (60, 253.2) lies in the centred box and misses, and a tap at (380, 300) lies
  outside the centred box and hits.
\<close>

theorem first_hit_box_off_centre:
  "centredHitBox 60 (2532 / 10) starter \<and>
   findElementAtPosition (initialState phone) 60 (2532 / 10) = None \<and>
   \<not> centredHitBox 380 300 starter \<and>
   findElementAtPosition (initialState phone) 380 300 = Some starter"
  by (simp add: centredHitBox_def findElementAtPosition_def hitBox_def initialState_phone
      starter_fields Let_def)

subsection \<open>Serialisation\<close>

lemma hi_nonempty: "str ''hi'' \<noteq> []" "length (str ''hi'') = 2"
  by (simp_all add: str_def)

lemma whiteHi_eq:
  "whiteHi =
     \<lparr>textElements =
        [starterEdited\<lparr>content := str ''hi'', fontSize := 40, backgroundMode := White\<rparr>],
      selectedTextId = str ''1'', isEditingText = False, isPosting = False,
      currentFontSize = 40, localTextContent = [],
      canvasBackgroundColor = str ''#F8F8FF'',
      backgroundGradient = [], showControlBar = False, screenDarkened = False,
      dragStart = Map.empty\<rparr>"
  by (simp add: whiteHi_def typedHi_eq pressBackgroundControl_def handleCanvasTap_def
      removeIfEmpty_def getCurrentTextElement_def findById_def starterEdited_fields
      getDisplayText_def stopEditingText_def commitEntry_def updateTextElement_def
      nextMode_def trim_hi hi_nonempty starterEdited_def starter_def newTextElement_def)

lemma exportElement_fields:
  "ex_content (exportElement el) = content el"
  "ex_x (exportElement el) = el_x el"
  "ex_y (exportElement el) = el_y el"
  "ex_fontSize (exportElement el) = round_js (times_js (Num (fontSize el)) (scale el))"
  "ex_color (exportElement el) = color el"
  "ex_fontFamily (exportElement el) = fontFamily el"
  "ex_hasBackground (exportElement el) = hasBackground el"
  "ex_backgroundColor (exportElement el) = backgroundColor el"
  by (simp_all add: exportElement_def)

lemma exportElement_ignores_backgroundMode:
  "exportElement (el\<lparr>backgroundMode := m\<rparr>) = exportElement el"
  by (simp add: exportElement_def)

lemma exported_size_examples:
  "ex_fontSize (exportElement (el\<lparr>fontSize := 24, scale := Num 2\<rparr>)) = Num 48"
  "ex_fontSize (exportElement (el\<lparr>fontSize := 10, scale := Num 0.3\<rparr>)) = Num 3"
  by (simp_all add: exportElement_def Math_round_def)

lemma text_elements_postData:
  "text_elements (postData w r) = map exportElement (currentElements r)"
  by (simp add: postData_def Let_def)

text \<open>
  C5. The exported record of an element has the fields of the claim, with the font size
  \<^verbatim>\<open>Math.round(fontSize * scale)\<close> (\<open>exportElement_fields\<close>, \<open>exported_size_examples\<close>).
  The exported \<^verbatim>\<open>hasBackground\<close> is the stored flag of the element, which the
  background mode does not touch (\<open>exportElement_ignores_backgroundMode\<close>): an element in
  the white mode, drawn by \<^verbatim>\<open>getTextStyle\<close> on a white chip, is exported with
  \<^verbatim>\<open>hasBackground\<close> false.
\<close>

theorem background_mode_not_exported:
  "textElements whiteHi =
     [starterEdited\<lparr>content := str ''hi'', fontSize := 40, backgroundMode := White\<rparr>] \<and>
   style_backgroundColor (getTextStyle
     (starterEdited\<lparr>content := str ''hi'', fontSize := 40, backgroundMode := White\<rparr>)) =
     str ''#FFFFFF'' \<and>
   style_hasPadding (getTextStyle
     (starterEdited\<lparr>content := str ''hi'', fontSize := 40, backgroundMode := White\<rparr>)) \<and>
   fst (handlePost phone whiteHi) = Inr (postData phone whiteHi) \<and>
   map ex_hasBackground (text_elements (postData phone whiteHi)) = [False] \<and>
   map ex_fontSize (text_elements (postData phone whiteHi)) = [Num 40]"
proof -
  have a: "allText whiteHi = str ''hi''"
    by (simp add: allText_def currentElements_def whiteHi_eq getDisplayText_def trim_hi
        hi_nonempty)
  have b: "fst (handlePost phone whiteHi) = Inr (postData phone whiteHi)"
    by (simp add: handlePost_def Let_def a trim_hi hi_nonempty maxLength_def)
  have c: "currentElements whiteHi =
     [starterEdited\<lparr>content := str ''hi'', fontSize := 40, backgroundMode := White\<rparr>]"
    by (simp add: currentElements_def whiteHi_eq getDisplayText_def)
  have d: "hasBackground starterEdited = False"
    by (simp add: starterEdited_def starter_def newTextElement_def)
  have t: "textElements whiteHi =
     [starterEdited\<lparr>content := str ''hi'', fontSize := 40, backgroundMode := White\<rparr>]"
    by (simp add: whiteHi_eq)
  show ?thesis
    by (simp add: b c d t text_elements_postData exportElement_fields getTextStyle_def
        starterEdited_fields Math_round_def)
qed

subsection \<open>Entering edit mode\<close>

lemma relocate_offScreen:
  "isOffScreen w (el_x e) (el_y e) \<Longrightarrow>
   relocate w e = e\<lparr>originalX := Some (el_x e), originalY := Some (el_y e),
                     el_x := screenWidth w * 0.5, el_y := screenHeight w * 0.3\<rparr>"
  by (simp add: relocate_def Let_def)

lemma relocate_onScreen:
  "\<not> isOffScreen w (el_x e) (el_y e) \<Longrightarrow>
   relocate w e = e\<lparr>originalX := Some (el_x e), originalY := Some (el_y e)\<rparr>"
  by (simp add: relocate_def Let_def)

lemma el_id_relocate: "el_id (relocate w e) = el_id e"
  by (simp add: relocate_def Let_def)

lemma find_assignFirst:
  "find P els = Some e \<Longrightarrow> P (f e) \<Longrightarrow> find P (assignFirst P f els) = Some (f e)"
  by (induction els) (auto split: if_splits)

lemma startEditingText_existing:
  assumes "findById i (textElements r) = Some e"
  shows "findById i (textElements (startEditingText w i r r)) = Some (relocate w e) \<and>
         isEditingText (startEditingText w i r r) \<and>
         selectedTextId (startEditingText w i r r) = i \<and>
         map_of (localTextContent (startEditingText w i r r)) i = Some (content e)"
proof -
  have i: "el_id e = i"
    using assms unfolding findById_def by (auto simp: find_Some_iff)
  have "find (\<lambda>el. el_id el = i) (assignFirst (\<lambda>el. el_id el = i) (relocate w) (textElements r)) =
        Some (relocate w e)"
    using assms i unfolding findById_def
    by (intro find_assignFirst) (simp_all add: el_id_relocate)
  then show ?thesis
    using assms
    by (simp add: startEditingText_def moveTextIntoViewForEditing_def Let_def findById_def
        update_conv')
qed

lemma isOffScreen_second: "isOffScreen phone 10 600"
  by (simp add: isOffScreen_def phone_def Let_def)

lemma placement_fold_commitEntry:
  "map placement (textElements (fold (commitEntry fs) buf p)) = map placement (textElements p)"
proof (induction buf arbitrary: p)
  case Nil
  then show ?case by simp
next
  case (Cons entry buf)
  have "map placement (textElements (commitEntry fs entry p)) = map placement (textElements p)"
    by (simp add: commitEntry_def updateTextElement_def placement_def)
  then show ?case using Cons.IH [of "commitEntry fs entry p"] by simp
qed

lemma exit_keeps_placement:
  assumes "isEditingText r"
  shows "\<exists>keep. map placement (textElements (handleCanvasTap w n px py r)) =
           map placement (filter keep (textElements r))"
proof -
  have "handleCanvasTap w n px py r = stopEditingText r (removeIfEmpty r)"
    using assms by (simp add: handleCanvasTap_def)
  then have a: "map placement (textElements (handleCanvasTap w n px py r)) =
      map placement (textElements (removeIfEmpty r))"
    by (simp add: stopEditingText_def Let_def placement_fold_commitEntry)
  have "\<exists>keep. textElements (removeIfEmpty r) = filter keep (textElements r)"
  proof (cases "getCurrentTextElement r")
    case None
    then have "textElements (removeIfEmpty r) = filter (\<lambda>el. True) (textElements r)"
      by (simp add: removeIfEmpty_def)
    then show ?thesis by blast
  next
    case (Some e)
    show ?thesis
    proof (cases "trim (getDisplayText r e) = []")
      case True
      have "textElements (removeIfEmpty r) =
          filter (\<lambda>el. el_id el \<noteq> el_id e) (textElements r)"
        by (simp add: removeIfEmpty_blank [OF Some True])
      then show ?thesis by blast
    next
      case False
      have "textElements (removeIfEmpty r) = filter (\<lambda>el. True) (textElements r)"
        by (simp add: removeIfEmpty_nonblank [OF Some False])
      then show ?thesis by blast
    qed
  qed
  with a show ?thesis by metis
qed

text \<open>
  C7. Entering edit mode on an element of the rendered store records its position in
  \<^verbatim>\<open>originalX\<close>, \<^verbatim>\<open>originalY\<close> and moves it to the anchor exactly when it is off
  screen (\<open>startEditingText_existing\<close>, \<open>relocate_offScreen\<close>, \<open>relocate_onScreen\<close>), and
  leaving edit mode moves nothing (\<open>exit_keeps_placement\<close>). An element created by the
  canvas tap enters edit mode without any of this: \<^verbatim>\<open>startEditingText\<close> looks for it in
  the rendered list, where it is not yet. After a tap at (10, 600) on the initial state the
  new element is being edited at (10, 600), 10 units from the left edge, with no original
  position recorded and no buffer entry.
\<close>

theorem new_element_not_relocated:
  "findElementAtPosition (initialState phone) 10 600 = None \<and>
   isEditingText creatingSecond \<and>
   selectedTextId creatingSecond = secondId \<and>
   isOffScreen phone 10 600 \<and>
   findById secondId (textElements creatingSecond) = Some (newTextElement secondId 10 600) \<and>
   el_x (newTextElement secondId 10 600) = 10 \<and>
   el_y (newTextElement secondId 10 600) = 600 \<and>
   originalX (newTextElement secondId 10 600) = None \<and>
   localTextContent creatingSecond = []"
  by (simp add: creatingSecond_eq isOffScreen_second findById_def starter_fields secondId_neq
      findElementAtPosition_def initialState_phone not_hitBox_starter newTextElement_def)

subsection \<open>The empty store\<close>

text \<open>
  C10. From the initial state of any window, a tap on the starter element followed by a
  canvas tap, with nothing typed, leaves the store empty, although the starter element
  was the only one; \<^verbatim>\<open>handlePost\<close> on that state fails with \<open>EmptyContent\<close>. The
  explicit delete on the initial state changes nothing.
\<close>

theorem empty_store_reachable:
  "isEditingText (handleCanvasTap w n1 (screenWidth w / 2) (screenHeight w * 0.3) (initialState w)) \<and>
   length (textElements
     (handleCanvasTap w n1 (screenWidth w / 2) (screenHeight w * 0.3) (initialState w))) = 1 \<and>
   textElements
     (handleCanvasTap w n2 px py
        (handleCanvasTap w n1 (screenWidth w / 2) (screenHeight w * 0.3) (initialState w))) = [] \<and>
   fst (handlePost w
     (handleCanvasTap w n2 px py
        (handleCanvasTap w n1 (screenWidth w / 2) (screenHeight w * 0.3) (initialState w)))) =
     Inl EmptyContent \<and>
   deleteTextElement (str ''1'') (initialState w) = initialState w"
proof -
  define e where "e = newTextElement (str ''1'') (screenWidth w / 2) (screenHeight w * 0.3)"
  define r1 where
    "r1 = handleCanvasTap w n1 (screenWidth w / 2) (screenHeight w * 0.3) (initialState w)"
  define r2 where "r2 = handleCanvasTap w n2 px py r1"
  have hit: "hitBox (screenWidth w / 2) (screenHeight w * 0.3) e"
    by (simp add: e_def hitBox_def newTextElement_def Let_def)
  have e_fields: "el_id e = str ''1''" "content e = []"
    by (simp_all add: e_def newTextElement_def)
  have init: "textElements (initialState w) = [e]" "\<not> isEditingText (initialState w)"
    "localTextContent (initialState w) = []" "selectedTextId (initialState w) = str ''1''"
    by (simp_all add: initialState_def e_def)
  have "findElementAtPosition (initialState w) (screenWidth w / 2) (screenHeight w * 0.3) = Some e"
    unfolding findElementAtPosition_def init(1) using hit by simp
  then have "r1 = startEditingText w (str ''1'') (initialState w)
       ((initialState w)\<lparr>selectedTextId := str ''1''\<rparr>)"
    unfolding r1_def handleCanvasTap_def using init(2) e_fields(1) by simp
  then have ed: "isEditingText r1" "localTextContent r1 = [(str ''1'', [])]"
    "textElements r1 = [relocate w e]" "selectedTextId r1 = str ''1''"
    by (simp_all add: startEditingText_def moveTextIntoViewForEditing_def findById_def Let_def
        init e_fields)
  have cur: "getCurrentTextElement r1 = Some (relocate w e)"
    by (simp add: getCurrentTextElement_def findById_def ed el_id_relocate e_fields)
  have disp: "trim (getDisplayText r1 (relocate w e)) = []"
    by (simp add: getDisplayText_def ed el_id_relocate e_fields trim_Nil)
  have "textElements (removeIfEmpty r1) = []"
    by (simp add: removeIfEmpty_blank [OF cur disp] ed)
  moreover have "r2 = stopEditingText r1 (removeIfEmpty r1)"
    unfolding r2_def handleCanvasTap_def using ed(1) by simp
  ultimately have r2: "textElements r2 = []"
    by (simp add: stopEditingText_def ed commitEntry_def updateTextElement_def)
  have post: "fst (handlePost w r2) = Inl EmptyContent"
    by (simp add: handlePost_def Let_def allText_def currentElements_def r2 trim_Nil)
  have del: "deleteTextElement (str ''1'') (initialState w) = initialState w"
    by (simp add: deleteTextElement_def init)
  have len: "length (textElements r1) = 1" by (simp add: ed)
  show ?thesis
    using ed(1) len r2 post del unfolding r2_def r1_def by blast
qed

end
